theory Spec2Isabelle
  imports Complex_Main
begin

section \<open>Domain normalisation (src/shared/utils/domainUtils.ts)\<close>

text \<open>
  JavaScript strings are modelled as \<^typ>\<open>string\<close>, one \<^typ>\<open>char\<close> per code unit,
  restricted to ASCII: \<open>toLowerCase\<close> maps \<open>A..Z\<close> to \<open>a..z\<close> and leaves every other
  character alone, and \<open>trim\<close> removes the ASCII white space and line terminators
  (TAB, LF, VT, FF, CR, SPACE) from both ends.
\<close>

definition toLowerChar :: "char \<Rightarrow> char" where
  "toLowerChar c =
     (case map_of (zip ''ABCDEFGHIJKLMNOPQRSTUVWXYZ'' ''abcdefghijklmnopqrstuvwxyz'') c of
        Some l \<Rightarrow> l
      | None \<Rightarrow> c)"

definition toLowerCase :: "string \<Rightarrow> string" where
  "toLowerCase s = map toLowerChar s"

definition isWhiteSpace :: "char \<Rightarrow> bool" where
  "isWhiteSpace c = (c \<in> set [CHR 0x09, CHR 0x0A, CHR 0x0B, CHR 0x0C, CHR 0x0D, CHR '' ''])"

definition trim :: "string \<Rightarrow> string" where
  "trim s = rev (dropWhile isWhiteSpace (rev (dropWhile isWhiteSpace s)))"

text \<open>\<open>.replace(/^https?:\/\//, '')\<close>: one scheme prefix, anchored at the start.\<close>

definition removeProtocol :: "string \<Rightarrow> string" where
  "removeProtocol s =
     (if take 8 s = ''https://'' then drop 8 s
      else if take 7 s = ''http://'' then drop 7 s
      else s)"

text \<open>\<open>.replace(/\/$/, '')\<close>: one slash, anchored at the end of the input.\<close>

definition removeTrailingSlash :: "string \<Rightarrow> string" where
  "removeTrailingSlash s = (if s \<noteq> [] \<and> last s = CHR ''/'' then butlast s else s)"

definition normalizeDomain :: "string \<Rightarrow> string" where
  "normalizeDomain domain = trim (removeTrailingSlash (removeProtocol (toLowerCase domain)))"


section \<open>Resource client registry (src/shared/database/tenantClient.ts)\<close>

text \<open>
  The module-level \<open>Map<string, TenantPrismaClient>\<close> is a finite map from the
  connection string to the cached client. A client object is identified by its
  reference: \<open>h_ref\<close> is the allocation number of the object, so two handles are the
  same JavaScript object exactly when their \<open>h_ref\<close> agree; \<open>nextRef\<close> counts the
  clients constructed so far.
\<close>

record handle =
  h_ref :: nat
  h_url :: string

record registry =
  tenantClients :: "string \<rightharpoonup> handle"
  nextRef :: nat

definition getTenantClient :: "string \<Rightarrow> registry \<Rightarrow> handle \<times> registry" where
  "getTenantClient connectionString r =
     (case tenantClients r connectionString of
        Some client \<Rightarrow> (client, r)
      | None \<Rightarrow>
          (let client = \<lparr>h_ref = nextRef r, h_url = connectionString\<rparr>
           in (client,
               r\<lparr>tenantClients := (tenantClients r)(connectionString \<mapsto> client),
                 nextRef := Suc (nextRef r)\<rparr>)))"

text \<open>
  \<open>disconnectTenantClient\<close>: \<open>disconnects\<close> tells whether \<open>client.$disconnect()\<close>
  resolves; when it rejects, the exception leaves the function before the entry is
  deleted.
\<close>

datatype registry_error = DisconnectFailed

definition disconnectTenantClient ::
  "string \<Rightarrow> bool \<Rightarrow> registry \<Rightarrow> (registry_error + unit) \<times> registry" where
  "disconnectTenantClient connectionString disconnects r =
     (case tenantClients r connectionString of
        None \<Rightarrow> (Inr (), r)
      | Some client \<Rightarrow>
          if disconnects
          then (Inr (), r\<lparr>tenantClients := (tenantClients r)(connectionString := None)\<rparr>)
          else (Inl DisconnectFailed, r))"

datatype registry_op = GetClient string | Evict string bool

text \<open>A sequence of registry calls; the trace lists the handle each \<open>GetClient\<close> returned.\<close>

fun runRegistry :: "registry_op list \<Rightarrow> registry \<Rightarrow> handle list \<times> registry" where
  "runRegistry [] r = ([], r)"
| "runRegistry (GetClient k # ops) r =
     (let (h, r') = getTenantClient k r; (hs, r'') = runRegistry ops r' in (h # hs, r''))"
| "runRegistry (Evict k ok # ops) r =
     runRegistry ops (snd (disconnectTenantClient k ok r))"

text \<open>Every cached client was constructed earlier, and no client is cached under two keys.\<close>

definition registry_inv :: "registry \<Rightarrow> bool" where
  "registry_inv r \<longleftrightarrow>
     (\<forall>k h. tenantClients r k = Some h \<longrightarrow> h_ref h < nextRef r) \<and>
     (\<forall>k k' h h'. tenantClients r k = Some h \<and> tenantClients r k' = Some h' \<and> h_ref h = h_ref h'
        \<longrightarrow> k = k')"


section \<open>Dates (the ECMAScript \<open>Date\<close> operations the billing code calls)\<close>

text \<open>
  A \<open>Date\<close> is its time value: milliseconds since the epoch, an \<^typ>\<open>int\<close>.
  \<open>getFullYear\<close>, \<open>getMonth\<close> and \<open>new Date(year, month, day)\<close> work in local time;
  the local zone is a fixed offset \<open>tza\<close> in milliseconds (no daylight saving), and
  time values stay inside the range \<open>Date\<close> can represent.
  The day number is turned into a civil date and back in closed form, on the
  proleptic Gregorian calendar with years starting in March.
\<close>

type_synonym time = int

definition msPerDay :: int where
  "msPerDay = 86400000"

definition Day :: "time \<Rightarrow> int" where
  "Day t = t div msPerDay"

definition TimeWithinDay :: "time \<Rightarrow> int" where
  "TimeWithinDay t = t mod msPerDay"

text \<open>Day number of the civil date \<open>y-m-d\<close>, month \<open>m\<close> from 1 to 12.\<close>

definition daysFromCivil :: "int \<Rightarrow> int \<Rightarrow> int \<Rightarrow> int" where
  "daysFromCivil y m d =
     (let y' = (if m \<le> 2 then y - 1 else y);
          era = y' div 400;
          yoe = y' mod 400;
          mp = (if m > 2 then m - 3 else m + 9);
          doy = (153 * mp + 2) div 5 + d - 1;
          doe = yoe * 365 + yoe div 4 - yoe div 100 + doy
      in era * 146097 + doe - 719468)"

text \<open>Civil date \<open>(year, month, day)\<close> of a day number, month from 1 to 12.\<close>

definition civilFromDays :: "int \<Rightarrow> int \<times> int \<times> int" where
  "civilFromDays z =
     (let z' = z + 719468;
          era = z' div 146097;
          doe = z' mod 146097;
          yoe = (doe - doe div 1460 + doe div 36524 - doe div 146096) div 365;
          doy = doe - (365 * yoe + yoe div 4 - yoe div 100);
          mp = (5 * doy + 2) div 153;
          d = doy - (153 * mp + 2) div 5 + 1;
          m = (if mp < 10 then mp + 3 else mp - 9);
          y = yoe + era * 400
      in (if m \<le> 2 then y + 1 else y, m, d))"

definition YearFromTime :: "time \<Rightarrow> int" where
  "YearFromTime t = fst (civilFromDays (Day t))"

text \<open>Months are numbered from 0 (January) to 11, as \<open>getMonth\<close> does.\<close>

definition MonthFromTime :: "time \<Rightarrow> int" where
  "MonthFromTime t = fst (snd (civilFromDays (Day t))) - 1"

definition DateFromTime :: "time \<Rightarrow> int" where
  "DateFromTime t = snd (snd (civilFromDays (Day t)))"

text \<open>
  \<open>MakeDay\<close> carries a month outside \<open>0..11\<close> into the year and counts the date from
  the first of that month, so date 0 is the day before the first.
\<close>

definition MakeDay :: "int \<Rightarrow> int \<Rightarrow> int \<Rightarrow> int" where
  "MakeDay year month date =
     daysFromCivil (year + month div 12) (month mod 12 + 1) 1 + date - 1"

definition LocalTime :: "int \<Rightarrow> time \<Rightarrow> int" where
  "LocalTime tza t = t + tza"

definition getFullYear :: "int \<Rightarrow> time \<Rightarrow> int" where
  "getFullYear tza t = YearFromTime (LocalTime tza t)"

definition getMonth :: "int \<Rightarrow> time \<Rightarrow> int" where
  "getMonth tza t = MonthFromTime (LocalTime tza t)"

definition getDate :: "int \<Rightarrow> time \<Rightarrow> int" where
  "getDate tza t = DateFromTime (LocalTime tza t)"

text \<open>\<open>new Date(year, month, date)\<close>: local midnight of that day; a year from 0 to 99 means 19xx.\<close>

definition newDate :: "int \<Rightarrow> int \<Rightarrow> int \<Rightarrow> int \<Rightarrow> time" where
  "newDate tza year month date =
     (let yr = (if 0 \<le> year \<and> year \<le> 99 then 1900 + year else year)
      in MakeDay yr month date * msPerDay - tza)"

text \<open>\<open>CoreBillingService.getNextBillingDate\<close>, with \<open>now\<close> the value of \<open>new Date()\<close>.\<close>

definition getNextBillingDate :: "int \<Rightarrow> time \<Rightarrow> time" where
  "getNextBillingDate tza now = newDate tza (getFullYear tza now) (getMonth tza now + 1) 0"


section \<open>The control-plane store (the Prisma main client) and the tenant databases\<close>

text \<open>
  Each table is the list of its rows, in the order the store returns them. Money is
  Prisma's \<open>Decimal\<close>, a decimal number whose \<open>add\<close> and \<open>mul\<close> are exact for the
  magnitudes a price column holds: \<^typ>\<open>rat\<close>, with \<open>+\<close> and \<open>*\<close>. Row ids are the
  strings the id generator hands out. Only the columns the billing and resolution
  code reads or writes are kept.
\<close>

type_synonym decimal = rat

datatype invoice_status = PENDING | PAID | OVERDUE

record project =
  proj_id :: string
  proj_name :: string
  proj_slug :: string
  proj_domain :: "string option"
  dbConnectionString :: string
  s3Bucket :: string
  s3Endpoint :: string
  s3AccessKey :: string
  s3SecretKey :: string
  llmProvider :: string
  llmApiKey :: "string option"
  proj_isActive :: bool

record subscription =
  sub_id :: string
  sub_projectId :: string
  sub_userId :: string
  userPricePerMonth :: decimal
  applicationPricePerMonth :: decimal
  sub_isActive :: bool
  lastBilled :: "time option"
  nextBilling :: time
  sub_createdAt :: time

record invoice =
  inv_id :: string
  inv_subscriptionId :: string
  inv_projectId :: string
  invoiceNumber :: string
  amount :: decimal
  inv_userCount :: nat
  inv_applicationCount :: nat
  inv_userAmount :: decimal
  inv_applicationAmount :: decimal
  inv_periodStart :: time
  inv_periodEnd :: time
  inv_status :: invoice_status
  dueDate :: time
  paidAt :: "time option"

record application =
  app_id :: string
  pricePerMonth :: decimal

text \<open>
  A selection row is listed with the catalog entry its \<open>applicationId\<close> refers to
  (the relation is required, so \<open>include: { application: true }\<close> always finds it).
\<close>

record tenant_application =
  ta_projectId :: string
  ta_applicationId :: string
  customPrice :: "decimal option"
  ta_isActive :: bool
  application :: application

record tenant_user =
  tu_id :: string
  tu_isActive :: bool

text \<open>
  \<open>tenantDbs\<close> lists, by connection string, the users table of each tenant
  database that can be reached; a connection string that is not listed is a
  database that cannot.
\<close>

record store =
  projects :: "project list"
  subscriptions :: "subscription list"
  invoices :: "invoice list"
  tenantApplications :: "tenant_application list"
  tenantDbs :: "(string \<times> tenant_user list) list"

datatype error =
  ProjectNotFound
  | NoActiveSubscription
  | InvoiceNotFound
  | InvoiceAlreadyPaid
  | RecordNotFound
  | UniqueConstraintViolation
  | StoreUnavailable
  | TenantDbUnavailable

text \<open>\<open>project.findUnique({ where: { id } })\<close>\<close>

definition findProject :: "string \<Rightarrow> store \<Rightarrow> project option" where
  "findProject projectId s = find (\<lambda>p. proj_id p = projectId) (projects s)"

text \<open>\<open>subscription.findFirst({ where: { projectId, isActive: true } })\<close>\<close>

definition findActiveSubscription :: "string \<Rightarrow> store \<Rightarrow> subscription option" where
  "findActiveSubscription projectId s =
     find (\<lambda>sb. sub_projectId sb = projectId \<and> sub_isActive sb) (subscriptions s)"

text \<open>\<open>invoice.findUnique({ where: { id } })\<close>\<close>

definition findInvoice :: "string \<Rightarrow> store \<Rightarrow> invoice option" where
  "findInvoice invoiceId s = find (\<lambda>i. inv_id i = invoiceId) (invoices s)"

text \<open>
  \<open>update({ where: { id }, data })\<close> rewrites the row with that id and throws when
  there is none.
\<close>

definition updateProject :: "string \<Rightarrow> (project \<Rightarrow> project) \<Rightarrow> store \<Rightarrow> error + store" where
  "updateProject projectId f s =
     (if projectId \<in> set (map proj_id (projects s))
      then Inr (s\<lparr>projects := map (\<lambda>p. if proj_id p = projectId then f p else p) (projects s)\<rparr>)
      else Inl RecordNotFound)"

definition updateInvoice :: "string \<Rightarrow> (invoice \<Rightarrow> invoice) \<Rightarrow> store \<Rightarrow> error + store" where
  "updateInvoice invoiceId f s =
     (if invoiceId \<in> set (map inv_id (invoices s))
      then Inr (s\<lparr>invoices := map (\<lambda>i. if inv_id i = invoiceId then f i else i) (invoices s)\<rparr>)
      else Inl RecordNotFound)"

definition updateSubscription ::
  "string \<Rightarrow> (subscription \<Rightarrow> subscription) \<Rightarrow> store \<Rightarrow> error + store" where
  "updateSubscription subscriptionId f s =
     (if subscriptionId \<in> set (map sub_id (subscriptions s))
      then Inr (s\<lparr>subscriptions :=
                   map (\<lambda>sb. if sub_id sb = subscriptionId then f sb else sb) (subscriptions s)\<rparr>)
      else Inl RecordNotFound)"

text \<open>
  \<open>create({ data })\<close> appends the row; the primary key and the unique invoice number
  are constraints of the table.
\<close>

definition createInvoice :: "invoice \<Rightarrow> store \<Rightarrow> error + store" where
  "createInvoice row s =
     (if inv_id row \<in> set (map inv_id (invoices s))
         \<or> invoiceNumber row \<in> set (map invoiceNumber (invoices s))
      then Inl UniqueConstraintViolation
      else Inr (s\<lparr>invoices := invoices s @ [row]\<rparr>))"

definition createSubscriptionRow :: "subscription \<Rightarrow> store \<Rightarrow> error + store" where
  "createSubscriptionRow row s =
     (if sub_id row \<in> set (map sub_id (subscriptions s))
      then Inl UniqueConstraintViolation
      else Inr (s\<lparr>subscriptions := subscriptions s @ [row]\<rparr>))"

section \<open>Billing (src/core/billing/coreBillingService.ts)\<close>

text \<open>
  What an operation takes from its environment: \<open>now\<close> is the clock, read once
  (every \<open>new Date()\<close> and \<open>Date.now()\<close> of one operation is given this value), \<open>tza\<close>
  the local time zone offset, \<open>random\<close> the six characters
  \<open>Math.random().toString(36).substr(2, 6)\<close> yields, \<open>newId\<close> the id the store
  generates for a created row, and \<open>fault\<close> the awaited call, if any, that rejects
  because its store cannot be reached.
\<close>

datatype fault_point =
  NoFault
  | ProjectFindFails
  | SubscriptionFindFails
  | UserCountFails
  | SubscriptionRefindFails
  | InvoiceCreateFails
  | SubscriptionUpdateFails

record env =
  now :: time
  tza :: int
  random :: string
  newId :: string
  fault :: fault_point

record billing_calculation =
  bc_userCount :: nat
  bc_applicationCount :: nat
  bc_userAmount :: decimal
  bc_applicationAmount :: decimal
  bc_totalAmount :: decimal
  bc_periodStart :: time
  bc_periodEnd :: time

text \<open>
  \<open>createSubscription\<close>; an absent price argument takes its default, 10.00 and 0.00.
\<close>

definition createSubscription ::
  "env \<Rightarrow> string \<Rightarrow> string \<Rightarrow> decimal option \<Rightarrow> decimal option \<Rightarrow> store
     \<Rightarrow> (error + subscription) \<times> store" where
  "createSubscription e projectId userId userPrice applicationPrice s =
     (let row = \<lparr>sub_id = newId e, sub_projectId = projectId, sub_userId = userId,
                 userPricePerMonth = (case userPrice of Some p \<Rightarrow> p | None \<Rightarrow> 10),
                 applicationPricePerMonth = (case applicationPrice of Some p \<Rightarrow> p | None \<Rightarrow> 0),
                 sub_isActive = True, lastBilled = None,
                 nextBilling = getNextBillingDate (tza e) (now e),
                 sub_createdAt = now e\<rparr>
      in case createSubscriptionRow row s of
           Inl err \<Rightarrow> (Inl err, s)
         | Inr s' \<Rightarrow> (Inr row, s'))"

text \<open>
  The rows \<open>include: { tenantApplications: { where: { isActive: true },
  include: { application: true } } }\<close> attaches to the project.
\<close>

definition activeTenantApplications :: "string \<Rightarrow> store \<Rightarrow> tenant_application list" where
  "activeTenantApplications projectId s =
     filter (\<lambda>ta. ta_projectId ta = projectId \<and> ta_isActive ta) (tenantApplications s)"

text \<open>
  \<open>tenantApp.customPrice || tenantApp.application.pricePerMonth\<close>: a \<open>Decimal\<close> is an
  object, so every custom price that is not \<open>null\<close> is taken, zero included.
\<close>

definition appPrice :: "tenant_application \<Rightarrow> decimal" where
  "appPrice tenantApp =
     (case customPrice tenantApp of
        Some p \<Rightarrow> p
      | None \<Rightarrow> pricePerMonth (application tenantApp))"

text \<open>The \<open>for\<close> loop that adds up the application prices.\<close>

definition sumApplicationPrices :: "tenant_application list \<Rightarrow> decimal" where
  "sumApplicationPrices tenantApps = foldl (\<lambda>acc tenantApp. acc + appPrice tenantApp) 0 tenantApps"

text \<open>
  The block of \<open>calculateBilling\<close> after its three reads: the amounts and the
  object returned.
\<close>

definition billingOf ::
  "env \<Rightarrow> subscription \<Rightarrow> tenant_application list \<Rightarrow> nat \<Rightarrow> billing_calculation" where
  "billingOf e subscription tenantApps userCount =
     (let userAmount = of_nat userCount * userPricePerMonth subscription;
          applicationAmount = sumApplicationPrices tenantApps;
          totalAmount = userAmount + applicationAmount
      in \<lparr>bc_userCount = userCount,
          bc_applicationCount = length tenantApps,
          bc_userAmount = userAmount,
          bc_applicationAmount = applicationAmount,
          bc_totalAmount = totalAmount,
          bc_periodStart = (case lastBilled subscription of
                              Some t \<Rightarrow> t
                            | None \<Rightarrow> sub_createdAt subscription),
          bc_periodEnd = now e\<rparr>)"

text \<open>
  \<open>calculateBilling\<close>: the project with its active selections, the active
  subscription, then the count of active users in the tenant's own database,
  reached through the connection string as the project row stores it. The client
  \<open>getTenantClient\<close> caches for that string is left to the registry section.
\<close>

definition calculateBilling :: "env \<Rightarrow> string \<Rightarrow> store \<Rightarrow> error + billing_calculation" where
  "calculateBilling e projectId s =
     (if fault e = ProjectFindFails then Inl StoreUnavailable
      else (case findProject projectId s of
        None \<Rightarrow> Inl ProjectNotFound
      | Some project \<Rightarrow>
         (if fault e = SubscriptionFindFails then Inl StoreUnavailable
          else (case findActiveSubscription projectId s of
            None \<Rightarrow> Inl NoActiveSubscription
          | Some subscription \<Rightarrow>
             (if fault e = UserCountFails then Inl TenantDbUnavailable
              else (case map_of (tenantDbs s) (dbConnectionString project) of
                None \<Rightarrow> Inl TenantDbUnavailable
              | Some users \<Rightarrow>
                  Inr (billingOf e subscription (activeTenantApplications projectId s)
                         (length (filter tu_isActive users)))))))))"

text \<open>
  \<open>generateInvoiceNumber\<close>: \<open>`INV-${timestamp}-${random}`.toUpperCase()\<close>, the
  timestamp printed in decimal.
\<close>

definition toUpperChar :: "char \<Rightarrow> char" where
  "toUpperChar c =
     (case map_of (zip ''abcdefghijklmnopqrstuvwxyz'' ''ABCDEFGHIJKLMNOPQRSTUVWXYZ'') c of
        Some u \<Rightarrow> u
      | None \<Rightarrow> c)"

definition toUpperCase :: "string \<Rightarrow> string" where
  "toUpperCase s = map toUpperChar s"

text \<open>The decimal digits of a number that is not negative.\<close>

function digitsOf :: "int \<Rightarrow> string" where
  "digitsOf n =
     (if n < 10 then [''0123456789'' ! nat n]
      else digitsOf (n div 10) @ [''0123456789'' ! nat (n mod 10)])"
  by pat_completeness auto
termination
  by (relation "measure nat") auto

declare digitsOf.simps [simp del]

definition numberToString :: "int \<Rightarrow> string" where
  "numberToString i = (if i < 0 then CHR ''-'' # digitsOf (- i) else digitsOf i)"

definition generateInvoiceNumber :: "env \<Rightarrow> string" where
  "generateInvoiceNumber e = toUpperCase (''INV-'' @ numberToString (now e) @ ''-'' @ random e)"

text \<open>
  The \<open>data\<close> object \<open>generateMonthlyInvoice\<close> passes to \<open>invoice.create\<close>, completed
  with the id the store generates and the column defaults: status \<open>PENDING\<close>, no
  \<open>paidAt\<close>.
\<close>

definition invoiceData :: "env \<Rightarrow> string \<Rightarrow> subscription \<Rightarrow> billing_calculation \<Rightarrow> invoice" where
  "invoiceData e projectId subscription calculation =
     \<lparr>inv_id = newId e,
      inv_subscriptionId = sub_id subscription,
      inv_projectId = projectId,
      invoiceNumber = generateInvoiceNumber e,
      amount = bc_totalAmount calculation,
      inv_userCount = bc_userCount calculation,
      inv_applicationCount = bc_applicationCount calculation,
      inv_userAmount = bc_userAmount calculation,
      inv_applicationAmount = bc_applicationAmount calculation,
      inv_periodStart = bc_periodStart calculation,
      inv_periodEnd = bc_periodEnd calculation,
      inv_status = PENDING,
      dueDate = getNextBillingDate (tza e) (now e),
      paidAt = None\<rparr>"

text \<open>The \<open>data\<close> of the \<open>subscription.update\<close> that follows.\<close>

definition advanceBilling :: "env \<Rightarrow> subscription \<Rightarrow> subscription" where
  "advanceBilling e sb =
     sb\<lparr>lastBilled := Some (now e), nextBilling := getNextBillingDate (tza e) (now e)\<rparr>"

text \<open>
  \<open>generateMonthlyInvoice\<close>. The two writes are two awaited calls, \<open>invoice.create\<close>
  then \<open>subscription.update\<close>, outside any transaction; what the first has written
  stays when the second rejects.
\<close>

definition generateMonthlyInvoice :: "env \<Rightarrow> string \<Rightarrow> store \<Rightarrow> (error + invoice) \<times> store" where
  "generateMonthlyInvoice e projectId s =
     (case calculateBilling e projectId s of
        Inl err \<Rightarrow> (Inl err, s)
      | Inr calculation \<Rightarrow>
         (if fault e = SubscriptionRefindFails then (Inl StoreUnavailable, s)
          else (case findActiveSubscription projectId s of
            None \<Rightarrow> (Inl NoActiveSubscription, s)
          | Some subscription \<Rightarrow>
             (if fault e = InvoiceCreateFails then (Inl StoreUnavailable, s)
              else (case createInvoice (invoiceData e projectId subscription calculation) s of
                Inl err \<Rightarrow> (Inl err, s)
              | Inr s1 \<Rightarrow>
                 (if fault e = SubscriptionUpdateFails then (Inl StoreUnavailable, s1)
                  else (case updateSubscription (sub_id subscription) (advanceBilling e) s1 of
                    Inl err \<Rightarrow> (Inl err, s1)
                  | Inr s2 \<Rightarrow>
                      (Inr (invoiceData e projectId subscription calculation), s2))))))))"

text \<open>
  \<open>processPayment\<close>. The payment method is not read. The value returned is the
  object \<open>findUnique\<close> gave, which the two updates do not touch.
\<close>

definition processPayment :: "time \<Rightarrow> string \<Rightarrow> string \<Rightarrow> store \<Rightarrow> (error + invoice) \<times> store" where
  "processPayment t invoiceId paymentMethod s =
     (case findInvoice invoiceId s of
        None \<Rightarrow> (Inl InvoiceNotFound, s)
      | Some invoice \<Rightarrow>
         (if inv_status invoice = PAID then (Inl InvoiceAlreadyPaid, s)
          else (case updateInvoice invoiceId (\<lambda>i. i\<lparr>inv_status := PAID, paidAt := Some t\<rparr>) s of
            Inl err \<Rightarrow> (Inl err, s)
          | Inr s1 \<Rightarrow>
             (case updateProject (inv_projectId invoice) (\<lambda>p. p\<lparr>proj_isActive := True\<rparr>) s1 of
                Inl err \<Rightarrow> (Inl err, s1)
              | Inr s2 \<Rightarrow> (Inr invoice, s2)))))"

text \<open>
  \<open>checkOverdueInvoices\<close>: the rows \<open>findMany\<close> selected, then the loop over them.
\<close>

definition isOverdue :: "time \<Rightarrow> invoice \<Rightarrow> bool" where
  "isOverdue t i \<longleftrightarrow> inv_status i = PENDING \<and> dueDate i < t"

fun overdueLoop :: "invoice list \<Rightarrow> store \<Rightarrow> error option \<times> store" where
  "overdueLoop [] s = (None, s)"
| "overdueLoop (invoice # rest) s =
     (case updateInvoice (inv_id invoice) (\<lambda>i. i\<lparr>inv_status := OVERDUE\<rparr>) s of
        Inl err \<Rightarrow> (Some err, s)
      | Inr s1 \<Rightarrow>
         (case updateProject (inv_projectId invoice) (\<lambda>p. p\<lparr>proj_isActive := False\<rparr>) s1 of
            Inl err \<Rightarrow> (Some err, s1)
          | Inr s2 \<Rightarrow> overdueLoop rest s2))"

definition checkOverdueInvoices :: "time \<Rightarrow> store \<Rightarrow> (error + nat) \<times> store" where
  "checkOverdueInvoices t s =
     (let overdueInvoices = filter (isOverdue t) (invoices s)
      in case overdueLoop overdueInvoices s of
           (Some err, s') \<Rightarrow> (Inl err, s')
         | (None, s') \<Rightarrow> (Inr (length overdueInvoices), s'))"

section \<open>The monthly run (\<open>BillingAutomationService.processMonthlyBilling\<close>)\<close>

record billing_run =
  processedCount :: nat
  errorCount :: nat
  overdueCount :: nat

text \<open>
  The \<open>for\<close> loop with its \<open>try/catch\<close>: iteration \<open>i\<close> runs in the environment
  \<open>envs i\<close>. \<open>eventBus.publish\<close> catches what its handlers throw and never rejects, so
  the only call in the \<open>try\<close> block that can throw is \<open>generateMonthlyInvoice\<close>.
\<close>

fun billingLoop ::
  "(nat \<Rightarrow> env) \<Rightarrow> nat \<Rightarrow> subscription list \<Rightarrow> nat \<Rightarrow> nat \<Rightarrow> store \<Rightarrow> nat \<times> nat \<times> store" where
  "billingLoop envs i [] processed errors s = (processed, errors, s)"
| "billingLoop envs i (subscription # rest) processed errors s =
     (case generateMonthlyInvoice (envs i) (sub_projectId subscription) s of
        (Inr invoice, s') \<Rightarrow> billingLoop envs (Suc i) rest (Suc processed) errors s'
      | (Inl err, s') \<Rightarrow> billingLoop envs (Suc i) rest processed (Suc errors) s')"

definition processMonthlyBilling ::
  "(nat \<Rightarrow> env) \<Rightarrow> time \<Rightarrow> store \<Rightarrow> (error + billing_run) \<times> store" where
  "processMonthlyBilling envs sweepTime s =
     (let activeSubscriptions = filter sub_isActive (subscriptions s)
      in case billingLoop envs 0 activeSubscriptions 0 0 s of
           (processed, errors, s1) \<Rightarrow>
             (case checkOverdueInvoices sweepTime s1 of
                (Inl err, s2) \<Rightarrow> (Inl err, s2)
              | (Inr overdue, s2) \<Rightarrow>
                  (Inr \<lparr>processedCount = processed, errorCount = errors, overdueCount = overdue\<rparr>,
                   s2)))"


section \<open>Tenant resolution (src/middleware/tenantMiddleware.ts)\<close>

text \<open>\<open>extractDomainFromHost\<close>: \<open>host.split(':')[0].toLowerCase()\<close>\<close>

definition extractDomainFromHost :: "string \<Rightarrow> string" where
  "extractDomainFromHost host = toLowerCase (takeWhile (\<lambda>c. c \<noteq> CHR '':'') host)"

text \<open>
  A header that is absent is \<open>None\<close>; JavaScript also takes the empty string for
  false in \<open>if (host)\<close> and \<open>if (!projectId)\<close>.
\<close>

definition truthy :: "string option \<Rightarrow> bool" where
  "truthy v = (case v of None \<Rightarrow> False | Some x \<Rightarrow> x \<noteq> [])"

text \<open>The query of the control-plane store, if any, that rejects during one request.\<close>

datatype lookup_fault = NoLookupFault | DomainLookupFails | ProjectLookupFails

text \<open>
  \<open>getProjectIdByDomain\<close>: the \<open>catch\<close> block logs the error of \<open>findFirst\<close> and
  returns \<open>null\<close>, the value it also returns when no project has the domain.
\<close>

definition getProjectIdByDomain :: "lookup_fault \<Rightarrow> store \<Rightarrow> string \<Rightarrow> string option" where
  "getProjectIdByDomain flt s domain =
     (if flt = DomainLookupFails then None
      else (case find (\<lambda>p. proj_domain p = Some domain) (projects s) of
        Some project \<Rightarrow> Some (proj_id project)
      | None \<Rightarrow> None))"

record tenant =
  t_id :: string
  t_name :: string
  t_slug :: string
  t_dbConnectionString :: string
  t_s3Bucket :: string
  t_s3Endpoint :: string
  t_s3AccessKey :: string
  t_s3SecretKey :: string
  t_llmProvider :: string
  t_llmApiKey :: "string option"

record s3_client =
  s3c_endpoint :: string
  s3c_accessKeyId :: string
  s3c_secretAccessKey :: string
  s3c_bucket :: string

record request =
  header_x_project_id :: "string option"
  header_host :: "string option"
  req_tenant :: "tenant option"
  req_prisma :: "handle option"
  req_s3 :: "s3_client option"

text \<open>What the middleware hands to \<open>next\<close>: nothing, or the error it caught.\<close>

datatype resolve_error = HttpNotFound | HttpForbidden | DirectoryUnavailable | CryptoError

definition createS3Client :: "string \<Rightarrow> string \<Rightarrow> string \<Rightarrow> string \<Rightarrow> s3_client" where
  "createS3Client endpoint accessKeyId secretAccessKey bucket =
     \<lparr>s3c_endpoint = endpoint, s3c_accessKeyId = accessKeyId,
      s3c_secretAccessKey = secretAccessKey, s3c_bucket = bucket\<rparr>"

text \<open>
  The project id the middleware goes on with: the \<open>X-Project-ID\<close> header, else the
  project the host's domain belongs to.
\<close>

definition resolveProjectId :: "lookup_fault \<Rightarrow> store \<Rightarrow> request \<Rightarrow> string option" where
  "resolveProjectId flt s req =
     (if \<not> truthy (header_x_project_id req)
      then (case header_host req of
              None \<Rightarrow> header_x_project_id req
            | Some host \<Rightarrow>
               (if host \<noteq> []
                then (let domain = extractDomainFromHost host;
                          normalizedDomain = normalizeDomain domain;
                          foundProjectId = getProjectIdByDomain flt s normalizedDomain
                      in if truthy foundProjectId then foundProjectId else header_x_project_id req)
                else header_x_project_id req))
      else header_x_project_id req)"

text \<open>
  \<open>tenantMiddleware\<close>; \<open>decrypt\<close> is the credential vault's function, \<open>None\<close> where
  it throws. The result is the argument of \<open>next\<close>, the request and the client
  registry as the call leaves them.
\<close>

definition tenantMiddleware ::
  "(string \<Rightarrow> string option) \<Rightarrow> lookup_fault \<Rightarrow> store \<Rightarrow> registry \<Rightarrow> request
     \<Rightarrow> resolve_error option \<times> request \<times> registry" where
  "tenantMiddleware decrypt flt s reg req =
     (case resolveProjectId flt s req of
        None \<Rightarrow> (None, req, reg)
      | Some projectId \<Rightarrow>
         (if projectId = [] then (None, req, reg)
          else if flt = ProjectLookupFails then (Some DirectoryUnavailable, req, reg)
          else (case findProject projectId s of
            None \<Rightarrow> (Some HttpNotFound, req, reg)
          | Some project \<Rightarrow>
             (if \<not> proj_isActive project then (Some HttpForbidden, req, reg)
              else (case (decrypt (dbConnectionString project),
                          decrypt (s3AccessKey project),
                          decrypt (s3SecretKey project),
                          (case llmApiKey project of
                             None \<Rightarrow> Some None
                           | Some k \<Rightarrow> if k = [] then Some None else map_option Some (decrypt k))) of
                (Some decryptedDbConnectionString, Some decryptedS3AccessKey,
                 Some decryptedS3SecretKey, Some decryptedLlmApiKey) \<Rightarrow>
                   (let (client, reg') = getTenantClient decryptedDbConnectionString reg
                    in (None,
                        req\<lparr>req_tenant := Some \<lparr>t_id = proj_id project,
                                                  t_name = proj_name project,
                                                  t_slug = proj_slug project,
                                                  t_dbConnectionString = decryptedDbConnectionString,
                                                  t_s3Bucket = s3Bucket project,
                                                  t_s3Endpoint = s3Endpoint project,
                                                  t_s3AccessKey = decryptedS3AccessKey,
                                                  t_s3SecretKey = decryptedS3SecretKey,
                                                  t_llmProvider = llmProvider project,
                                                  t_llmApiKey = decryptedLlmApiKey\<rparr>,
                            req_prisma := Some client,
                            req_s3 := Some (createS3Client (s3Endpoint project) decryptedS3AccessKey
                                              decryptedS3SecretKey (s3Bucket project))\<rparr>,
                        reg'))
              | _ \<Rightarrow> (Some CryptoError, req, reg))))))"

section \<open>Invariants of the control-plane store\<close>

text \<open>The primary key of the invoice table, and the foreign key from an invoice to its project.\<close>

definition invoiceIdsDistinct :: "store \<Rightarrow> bool" where
  "invoiceIdsDistinct s \<longleftrightarrow> distinct (map inv_id (invoices s))"

definition invoiceProjectsExist :: "store \<Rightarrow> bool" where
  "invoiceProjectsExist s \<longleftrightarrow> set (map inv_projectId (invoices s)) \<subseteq> set (map proj_id (projects s))"

text \<open>Only a settlement stamps \<open>paidAt\<close>: an invoice that is not \<open>PAID\<close> has none.\<close>

definition unpaidUnstamped :: "store \<Rightarrow> bool" where
  "unpaidUnstamped s \<longleftrightarrow> (\<forall>i \<in> set (invoices s). inv_status i \<noteq> PAID \<longrightarrow> paidAt i = None)"

section \<open>The store after a billed month\<close>

text \<open>The store once both writes of \<open>generateMonthlyInvoice\<close> are applied.\<close>

definition billed :: "env \<Rightarrow> subscription \<Rightarrow> invoice \<Rightarrow> store \<Rightarrow> store" where
  "billed e subscription invoice s =
     s\<lparr>invoices := invoices s @ [invoice],
       subscriptions := map (\<lambda>sb. if sub_id sb = sub_id subscription then advanceBilling e sb else sb)
                          (subscriptions s)\<rparr>"

definition storeInvariant :: "store \<Rightarrow> bool" where
  "storeInvariant s \<longleftrightarrow> invoiceIdsDistinct s \<and> invoiceProjectsExist s \<and> unpaidUnstamped s"

section \<open>The iterations of the monthly run\<close>

text \<open>
  What each iteration of the loop does, one entry per subscription of the list:
  the result of its \<open>generateMonthlyInvoice\<close> call and the store the call leaves,
  on which the next iteration runs.
\<close>

fun iterations ::
  "(nat \<Rightarrow> env) \<Rightarrow> nat \<Rightarrow> subscription list \<Rightarrow> store \<Rightarrow> ((error + invoice) \<times> store) list" where
  "iterations envs i [] s = []"
| "iterations envs i (subscription # rest) s =
     generateMonthlyInvoice (envs i) (sub_projectId subscription) s
       # iterations envs (Suc i) rest
           (snd (generateMonthlyInvoice (envs i) (sub_projectId subscription) s))"

section \<open>Example states\<close>

definition emptyRegistry :: registry where
  "emptyRegistry = \<lparr>tenantClients = Map.empty, nextRef = 0\<rparr>"


text \<open>
  A small control plane: project \<open>p1\<close> was locked out over the overdue invoice
  \<open>i1\<close>; project \<open>p2\<close> is active, with one pending and one paid invoice, no user
  and no application.
\<close>

definition projectP1 :: project where
  "projectP1 = \<lparr>proj_id = ''p1'', proj_name = ''Acme'', proj_slug = ''acme'',
     proj_domain = Some ''acme.com'', dbConnectionString = ''enc:db1'', s3Bucket = ''b1'',
     s3Endpoint = ''https://s3.local/'', s3AccessKey = ''enc:ak1'', s3SecretKey = ''enc:sk1'',
     llmProvider = ''openai'', llmApiKey = None, proj_isActive = False\<rparr>"

definition projectP2 :: project where
  "projectP2 = \<lparr>proj_id = ''p2'', proj_name = ''Bolt'', proj_slug = ''bolt'',
     proj_domain = Some ''bolt.io'', dbConnectionString = ''enc:db2'', s3Bucket = ''b2'',
     s3Endpoint = ''https://s3.local/'', s3AccessKey = ''enc:ak2'', s3SecretKey = ''enc:sk2'',
     llmProvider = ''openai'', llmApiKey = None, proj_isActive = True\<rparr>"

definition subscriptionS1 :: subscription where
  "subscriptionS1 = \<lparr>sub_id = ''s1'', sub_projectId = ''p1'', sub_userId = ''u1'',
     userPricePerMonth = 10, applicationPricePerMonth = 0, sub_isActive = True,
     lastBilled = None, nextBilling = 1000, sub_createdAt = 100\<rparr>"

definition subscriptionS2 :: subscription where
  "subscriptionS2 = \<lparr>sub_id = ''s2'', sub_projectId = ''p2'', sub_userId = ''u2'',
     userPricePerMonth = 10, applicationPricePerMonth = 0, sub_isActive = True,
     lastBilled = Some 500, nextBilling = 5000, sub_createdAt = 100\<rparr>"

definition invoiceI1 :: invoice where
  "invoiceI1 = \<lparr>inv_id = ''i1'', inv_subscriptionId = ''s1'', inv_projectId = ''p1'',
     invoiceNumber = ''INV-100-AAAAAA'', amount = 30, inv_userCount = 3,
     inv_applicationCount = 0, inv_userAmount = 30, inv_applicationAmount = 0,
     inv_periodStart = 100, inv_periodEnd = 500, inv_status = OVERDUE, dueDate = 1000,
     paidAt = None\<rparr>"

definition invoiceI2 :: invoice where
  "invoiceI2 = \<lparr>inv_id = ''i2'', inv_subscriptionId = ''s2'', inv_projectId = ''p2'',
     invoiceNumber = ''INV-500-BBBBBB'', amount = 0, inv_userCount = 0,
     inv_applicationCount = 0, inv_userAmount = 0, inv_applicationAmount = 0,
     inv_periodStart = 100, inv_periodEnd = 500, inv_status = PENDING, dueDate = 5000,
     paidAt = None\<rparr>"

definition invoiceI3 :: invoice where
  "invoiceI3 = \<lparr>inv_id = ''i3'', inv_subscriptionId = ''s2'', inv_projectId = ''p2'',
     invoiceNumber = ''INV-90-CCCCCC'', amount = 20, inv_userCount = 2,
     inv_applicationCount = 0, inv_userAmount = 20, inv_applicationAmount = 0,
     inv_periodStart = 10, inv_periodEnd = 90, inv_status = PAID, dueDate = 400,
     paidAt = Some 300\<rparr>"

definition crmApplication :: application where
  "crmApplication = \<lparr>app_id = ''crm'', pricePerMonth = 7\<rparr>"

definition exampleStore :: store where
  "exampleStore = \<lparr>projects = [projectP1, projectP2],
     subscriptions = [subscriptionS1, subscriptionS2],
     invoices = [invoiceI1, invoiceI2, invoiceI3],
     tenantApplications =
       [\<lparr>ta_projectId = ''p1'', ta_applicationId = ''crm'', customPrice = Some 5,
         ta_isActive = True, application = crmApplication\<rparr>,
        \<lparr>ta_projectId = ''p1'', ta_applicationId = ''crm2'', customPrice = None,
         ta_isActive = True, application = crmApplication\<rparr>,
        \<lparr>ta_projectId = ''p1'', ta_applicationId = ''crm3'', customPrice = None,
         ta_isActive = False, application = crmApplication\<rparr>],
     tenantDbs = [(''enc:db1'', [\<lparr>tu_id = ''a'', tu_isActive = True\<rparr>,
                                 \<lparr>tu_id = ''b'', tu_isActive = True\<rparr>,
                                 \<lparr>tu_id = ''c'', tu_isActive = False\<rparr>,
                                 \<lparr>tu_id = ''d'', tu_isActive = True\<rparr>]),
                  (''enc:db2'', [])]\<rparr>"

text \<open>A run on 15 January 2024, 12:00 UTC, and the invoice it creates for \<open>p1\<close>.\<close>

definition exampleEnv :: env where
  "exampleEnv = \<lparr>now = 1705320000000, tza = 0, random = ''k3x9qa'', newId = ''i4'',
     fault = NoFault\<rparr>"

definition invoiceI4 :: invoice where
  "invoiceI4 = \<lparr>inv_id = ''i4'', inv_subscriptionId = ''s1'', inv_projectId = ''p1'',
     invoiceNumber = ''INV-1705320000000-K3X9QA'', amount = 42, inv_userCount = 3,
     inv_applicationCount = 2, inv_userAmount = 30, inv_applicationAmount = 12,
     inv_periodStart = 100, inv_periodEnd = 1705320000000, inv_status = PENDING,
     dueDate = 1706659200000, paidAt = None\<rparr>"

text \<open>The same run when the store cannot be reached for the subscription update.\<close>

definition updateFailsEnv :: env where
  "updateFailsEnv = exampleEnv\<lparr>fault := SubscriptionUpdateFails\<rparr>"

text \<open>
  A monthly run over both subscriptions: the tenant database of \<open>p1\<close> cannot be
  reached in the first iteration; the second iteration bills \<open>p2\<close>.
\<close>

definition exampleEnvs :: "nat \<Rightarrow> env" where
  "exampleEnvs i =
     (if i = 0 then exampleEnv\<lparr>fault := UserCountFails\<rparr>
      else exampleEnv\<lparr>random := ''7hq2mz'', newId := ''i5''\<rparr>)"

text \<open>
  The scheduled run: 31 January 2024, 23:59 UTC, the last day of the month at the
  time of day the billing timer fires.
\<close>

definition monthEndEnv :: env where
  "monthEndEnv = \<lparr>now = 1706745540000, tza = 0, random = ''k3x9qa'', newId = ''i4'',
     fault = NoFault\<rparr>"

text \<open>A credential vault that opens what starts with \<open>enc:\<close>.\<close>

definition exampleDecrypt :: "string \<Rightarrow> string option" where
  "exampleDecrypt c = (if take 4 c = ''enc:'' then Some (drop 4 c) else None)"

text \<open>A request for \<open>bolt.io\<close>, the domain of the active project \<open>p2\<close>, with no project header.\<close>

definition boltRequest :: request where
  "boltRequest = \<lparr>header_x_project_id = None, header_host = Some ''Bolt.io:3000'',
     req_tenant = None, req_prisma = None, req_s3 = None\<rparr>"

text \<open>A control plane with every project active and nothing unpaid.\<close>

definition paidUpStore :: store where
  "paidUpStore = exampleStore\<lparr>projects := [projectP1\<lparr>proj_isActive := True\<rparr>, projectP2],
                              invoices := [invoiceI3]\<rparr>"

definition monthEndEnvs :: "nat \<Rightarrow> env" where
  "monthEndEnvs i =
     (if i = 0 then monthEndEnv else monthEndEnv\<lparr>random := ''7hq2mz'', newId := ''i5''\<rparr>)"

text \<open>
  The example control plane with a third project, \<open>p3\<close>, that has one active user,
  and a monthly run over the three subscriptions with nothing out of reach.
\<close>

definition projectP3 :: project where
  "projectP3 = \<lparr>proj_id = ''p3'', proj_name = ''Core'', proj_slug = ''core'',
     proj_domain = None, dbConnectionString = ''enc:db3'', s3Bucket = ''b3'',
     s3Endpoint = ''https://s3.local/'', s3AccessKey = ''enc:ak3'', s3SecretKey = ''enc:sk3'',
     llmProvider = ''openai'', llmApiKey = None, proj_isActive = True\<rparr>"

definition subscriptionS3 :: subscription where
  "subscriptionS3 = \<lparr>sub_id = ''s3'', sub_projectId = ''p3'', sub_userId = ''u3'',
     userPricePerMonth = 10, applicationPricePerMonth = 0, sub_isActive = True,
     lastBilled = None, nextBilling = 1000, sub_createdAt = 100\<rparr>"

definition threeTenantStore :: store where
  "threeTenantStore = exampleStore\<lparr>projects := [projectP1, projectP2, projectP3],
     subscriptions := [subscriptionS1, subscriptionS2, subscriptionS3],
     tenantDbs := tenantDbs exampleStore @ [(''enc:db3'', [\<lparr>tu_id = ''e'', tu_isActive = True\<rparr>])]\<rparr>"

definition threeEnvs :: "nat \<Rightarrow> env" where
  "threeEnvs k = exampleEnv\<lparr>random := ''k3x9q'' @ numberToString (int k),
                            newId := ''n'' @ numberToString (int k)\<rparr>"

section \<open>Rows found and rewritten by key\<close>

lemma find_key_Some:
  "find (\<lambda>x. key x = k) xs = Some x \<Longrightarrow> key x = k \<and> x \<in> set xs"
  by (induction xs) (auto split: if_splits)

lemma find_key_mem:
  "find (\<lambda>x. key x = k) xs = Some x \<Longrightarrow> k \<in> set (map key xs)"
  by (induction xs) (auto split: if_splits)

lemma find_key_None:
  "find (\<lambda>x. key x = k) xs = None \<Longrightarrow> k \<notin> set (map key xs)"
  by (induction xs) (auto split: if_splits)

lemma find_map_update:
  assumes "\<And>x. key (f x) = key x"
  shows "find (\<lambda>x. key x = k) (map (\<lambda>x. if key x = k then f x else x) xs)
           = map_option f (find (\<lambda>x. key x = k) xs)"
  using assms by (induction xs) auto


lemmas exampleStore_defs = exampleStore_def projectP1_def projectP2_def subscriptionS1_def
  subscriptionS2_def invoiceI1_def invoiceI2_def invoiceI3_def crmApplication_def


section \<open>Payment settlement\<close>

lemma processPayment_paid:
  "findInvoice invoiceId s = Some invoice \<Longrightarrow> inv_status invoice = PAID
     \<Longrightarrow> processPayment t invoiceId m s = (Inl InvoiceAlreadyPaid, s)"
  by (simp add: processPayment_def)

lemma processPayment_unpaid:
  assumes "findInvoice invoiceId s = Some invoice" and "inv_status invoice \<noteq> PAID"
  shows "processPayment t invoiceId m s =
     (if inv_projectId invoice \<in> set (map proj_id (projects s))
      then (Inr invoice,
            s\<lparr>invoices := map (\<lambda>i. if inv_id i = invoiceId then i\<lparr>inv_status := PAID, paidAt := Some t\<rparr> else i) (invoices s),
              projects := map (\<lambda>p. if proj_id p = inv_projectId invoice then p\<lparr>proj_isActive := True\<rparr> else p) (projects s)\<rparr>)
      else (Inl RecordNotFound,
            s\<lparr>invoices := map (\<lambda>i. if inv_id i = invoiceId then i\<lparr>inv_status := PAID, paidAt := Some t\<rparr> else i) (invoices s)\<rparr>))"
proof -
  have "invoiceId \<in> set (map inv_id (invoices s))"
    using assms(1) unfolding findInvoice_def by (rule find_key_mem)
  then show ?thesis
    using assms by (simp add: processPayment_def updateInvoice_def updateProject_def)
qed


lemma processPayment_stored_invoice:
  assumes "findInvoice invoiceId s = Some invoice" and "inv_status invoice \<noteq> PAID"
  shows "findInvoice invoiceId (snd (processPayment t invoiceId m s))
           = Some (invoice\<lparr>inv_status := PAID, paidAt := Some t\<rparr>)"
proof -
  have "find (\<lambda>i. inv_id i = invoiceId)
          (map (\<lambda>i. if inv_id i = invoiceId then i\<lparr>inv_status := PAID, paidAt := Some t\<rparr> else i)
             (invoices s))
        = map_option (\<lambda>i. i\<lparr>inv_status := PAID, paidAt := Some t\<rparr>)
            (find (\<lambda>i. inv_id i = invoiceId) (invoices s))"
    by (rule find_map_update) simp
  then show ?thesis
    using assms by (simp add: processPayment_unpaid [OF assms] findInvoice_def)
qed

lemma processPayment_project:
  assumes "findInvoice invoiceId s = Some invoice" and "inv_status invoice \<noteq> PAID"
    and "findProject (inv_projectId invoice) s = Some project"
  shows "fst (processPayment t invoiceId m s) = Inr invoice"
    and "findProject (inv_projectId invoice) (snd (processPayment t invoiceId m s))
           = Some (project\<lparr>proj_isActive := True\<rparr>)"
proof -
  have mem: "inv_projectId invoice \<in> set (map proj_id (projects s))"
    using assms(3) unfolding findProject_def by (rule find_key_mem)
  show "fst (processPayment t invoiceId m s) = Inr invoice"
    using mem by (simp add: processPayment_unpaid [OF assms(1,2)])
  have "find (\<lambda>p. proj_id p = inv_projectId invoice)
          (map (\<lambda>p. if proj_id p = inv_projectId invoice then p\<lparr>proj_isActive := True\<rparr> else p)
             (projects s))
        = map_option (\<lambda>p. p\<lparr>proj_isActive := True\<rparr>)
            (find (\<lambda>p. proj_id p = inv_projectId invoice) (projects s))"
    by (rule find_map_update) simp
  then show "findProject (inv_projectId invoice) (snd (processPayment t invoiceId m s))
           = Some (project\<lparr>proj_isActive := True\<rparr>)"
    using mem assms(3) by (simp add: processPayment_unpaid [OF assms(1,2)] findProject_def)
qed

text \<open>
  Claim C1. For an invoice of the store, \<open>processPayment\<close> rejects with the
  already-paid error exactly when its status is \<open>PAID\<close>, and then the store (so
  the invoice's \<open>amount\<close> and \<open>paidAt\<close>) is unchanged. Otherwise the stored invoice
  becomes \<open>PAID\<close> with \<open>paidAt\<close> stamped, the owning project, whatever its flag was,
  is active afterwards, and a second settlement is rejected and changes nothing.
\<close>

theorem processPayment_settles_once:
  assumes found: "findInvoice invoiceId s = Some invoice"
  shows "(fst (processPayment t invoiceId m s) = Inl InvoiceAlreadyPaid
            \<longleftrightarrow> inv_status invoice = PAID)
       \<and> (inv_status invoice = PAID \<longrightarrow> snd (processPayment t invoiceId m s) = s)
       \<and> (inv_status invoice \<noteq> PAID \<longrightarrow>
            findInvoice invoiceId (snd (processPayment t invoiceId m s))
              = Some (invoice\<lparr>inv_status := PAID, paidAt := Some t\<rparr>)
            \<and> (\<forall>project. findProject (inv_projectId invoice) s = Some project \<longrightarrow>
                  fst (processPayment t invoiceId m s) = Inr invoice
                  \<and> findProject (inv_projectId invoice) (snd (processPayment t invoiceId m s))
                      = Some (project\<lparr>proj_isActive := True\<rparr>))
            \<and> processPayment t' invoiceId m' (snd (processPayment t invoiceId m s))
                = (Inl InvoiceAlreadyPaid, snd (processPayment t invoiceId m s)))"
proof (cases "inv_status invoice = PAID")
  case True
  then show ?thesis
    by (simp add: processPayment_paid [OF found])
next
  case False
  have "fst (processPayment t invoiceId m s) \<noteq> Inl InvoiceAlreadyPaid"
    by (simp add: processPayment_unpaid [OF found False])
  moreover have "processPayment t' invoiceId m' (snd (processPayment t invoiceId m s))
                = (Inl InvoiceAlreadyPaid, snd (processPayment t invoiceId m s))"
    by (rule processPayment_paid [OF processPayment_stored_invoice [OF found False]]) simp
  ultimately show ?thesis
    using False processPayment_stored_invoice [OF found False]
      processPayment_project [OF found False]
    by simp
qed

theorem processPayment_settles_once_witness:
  "findInvoice ''i1'' exampleStore = Some invoiceI1
   \<and> inv_status invoiceI1 = OVERDUE
   \<and> findProject ''p1'' exampleStore = Some projectP1
   \<and> \<not> proj_isActive projectP1
   \<and> fst (processPayment 2000 ''i1'' ''stripe'' exampleStore) = Inr invoiceI1
   \<and> findInvoice ''i1'' (snd (processPayment 2000 ''i1'' ''stripe'' exampleStore))
        = Some (invoiceI1\<lparr>inv_status := PAID, paidAt := Some 2000\<rparr>)
   \<and> findProject ''p1'' (snd (processPayment 2000 ''i1'' ''stripe'' exampleStore))
        = Some (projectP1\<lparr>proj_isActive := True\<rparr>)
   \<and> fst (processPayment 3000 ''i1'' ''paypal'' (snd (processPayment 2000 ''i1'' ''stripe'' exampleStore)))
        = Inl InvoiceAlreadyPaid"
proof -
  have found: "findInvoice ''i1'' exampleStore = Some invoiceI1"
    by (simp add: findInvoice_def exampleStore_defs)
  have proj: "findProject ''p1'' exampleStore = Some projectP1"
    by (simp add: findProject_def exampleStore_defs)
  have st: "inv_status invoiceI1 = OVERDUE" "\<not> proj_isActive projectP1" "inv_projectId invoiceI1 = ''p1''"
    by (simp_all add: invoiceI1_def projectP1_def)
  from processPayment_settles_once [OF found, of 2000 "''stripe''" 3000 "''paypal''"] found proj st
  show ?thesis by simp
qed

section \<open>What a successful settlement returns\<close>

text \<open>
  Claim C10. The invoice a successful \<open>processPayment\<close> returns is the record as
  \<open>findUnique\<close> read it before the two updates: its status is still \<open>PENDING\<close> or
  \<open>OVERDUE\<close> and its \<open>paidAt\<close> is still unset, while the stored invoice is \<open>PAID\<close>
  with \<open>paidAt\<close> stamped.
\<close>

theorem processPayment_returns_record_as_read:
  assumes ok: "processPayment t invoiceId m s = (Inr returned, s')"
    and inv: "unpaidUnstamped s"
  shows "findInvoice invoiceId s = Some returned
       \<and> (inv_status returned = PENDING \<or> inv_status returned = OVERDUE)
       \<and> paidAt returned = None
       \<and> findInvoice invoiceId s' = Some (returned\<lparr>inv_status := PAID, paidAt := Some t\<rparr>)"
proof -
  from ok obtain invoice where found: "findInvoice invoiceId s = Some invoice"
    by (cases "findInvoice invoiceId s") (simp_all add: processPayment_def)
  have unpaid: "inv_status invoice \<noteq> PAID"
    using ok found by (auto simp: processPayment_def)
  have ret: "returned = invoice"
    using ok by (simp add: processPayment_unpaid [OF found unpaid] split: if_splits)
  have "invoice \<in> set (invoices s)"
    using found unfolding findInvoice_def by (auto dest: find_key_Some)
  then have none: "paidAt invoice = None"
    using inv unpaid by (simp add: unpaidUnstamped_def)
  have "findInvoice invoiceId s' = Some (invoice\<lparr>inv_status := PAID, paidAt := Some t\<rparr>)"
    using processPayment_stored_invoice [OF found unpaid, of t m] ok by simp
  with found unpaid none ret show ?thesis
    by (cases "inv_status invoice") simp_all
qed

theorem processPayment_returns_record_as_read_witness:
  "processPayment 2000 ''i2'' ''stripe'' exampleStore
     = (Inr invoiceI2,
        exampleStore\<lparr>invoices := [invoiceI1, invoiceI2\<lparr>inv_status := PAID, paidAt := Some 2000\<rparr>, invoiceI3]\<rparr>)
   \<and> unpaidUnstamped exampleStore
   \<and> inv_status invoiceI2 = PENDING \<and> paidAt invoiceI2 = None
   \<and> findInvoice ''i2'' (exampleStore\<lparr>invoices := [invoiceI1, invoiceI2\<lparr>inv_status := PAID, paidAt := Some 2000\<rparr>, invoiceI3]\<rparr>)
        = Some (invoiceI2\<lparr>inv_status := PAID, paidAt := Some 2000\<rparr>)"
proof -
  have ok: "processPayment 2000 ''i2'' ''stripe'' exampleStore
     = (Inr invoiceI2,
        exampleStore\<lparr>invoices := [invoiceI1, invoiceI2\<lparr>inv_status := PAID, paidAt := Some 2000\<rparr>, invoiceI3]\<rparr>)"
    by (simp add: processPayment_def findInvoice_def updateInvoice_def updateProject_def
        exampleStore_defs)
  have inv: "unpaidUnstamped exampleStore"
    by (simp add: unpaidUnstamped_def exampleStore_defs)
  from processPayment_returns_record_as_read [OF ok inv] ok inv show ?thesis
    by (simp add: invoiceI2_def)
qed

section \<open>The overdue sweep\<close>

lemma overdueLoop_result:
  assumes "set (map inv_id ovs) \<subseteq> set (map inv_id (invoices s))"
    and "set (map inv_projectId ovs) \<subseteq> set (map proj_id (projects s))"
  shows "overdueLoop ovs s =
     (None, s\<lparr>invoices := map (\<lambda>i. if inv_id i \<in> set (map inv_id ovs) then i\<lparr>inv_status := OVERDUE\<rparr> else i) (invoices s),
              projects := map (\<lambda>p. if proj_id p \<in> set (map inv_projectId ovs) then p\<lparr>proj_isActive := False\<rparr> else p) (projects s)\<rparr>)"
  using assms
proof (induction ovs arbitrary: s)
  case Nil
  then show ?case by simp
next
  case (Cons x ovs)
  let ?s2 = "s\<lparr>invoices := map (\<lambda>i. if inv_id i = inv_id x then i\<lparr>inv_status := OVERDUE\<rparr> else i) (invoices s),
               projects := map (\<lambda>p. if proj_id p = inv_projectId x then p\<lparr>proj_isActive := False\<rparr> else p) (projects s)\<rparr>"
  have ids: "map inv_id (invoices ?s2) = map inv_id (invoices s)"
    by (simp add: comp_def if_distrib cong: if_cong)
  have pids: "map proj_id (projects ?s2) = map proj_id (projects s)"
    by (simp add: comp_def if_distrib cong: if_cong)
  have step: "overdueLoop (x # ovs) s = overdueLoop ovs ?s2"
    using Cons.prems by (simp add: updateInvoice_def updateProject_def)
  have "overdueLoop ovs ?s2 =
     (None, ?s2\<lparr>invoices := map (\<lambda>i. if inv_id i \<in> set (map inv_id ovs) then i\<lparr>inv_status := OVERDUE\<rparr> else i) (invoices ?s2),
              projects := map (\<lambda>p. if proj_id p \<in> set (map inv_projectId ovs) then p\<lparr>proj_isActive := False\<rparr> else p) (projects ?s2)\<rparr>)"
    apply (rule Cons.IH)
    using Cons.prems ids pids by auto
  then show ?case
    unfolding step by (auto simp: comp_def)
qed


lemma isOverdue_fun: "isOverdue t = (\<lambda>i. inv_status i = PENDING \<and> dueDate i < t)"
  by (rule ext) (simp add: isOverdue_def)

lemma distinct_key_filter:
  assumes "distinct (map key xs)" and "x \<in> set xs"
  shows "key x \<in> set (map key (filter P xs)) \<longleftrightarrow> P x"
proof
  assume "key x \<in> set (map key (filter P xs))"
  then obtain y where y: "y \<in> set xs" "P y" "key y = key x" by auto
  from assms(1) have "inj_on key (set xs)" by (simp add: distinct_map)
  with y assms(2) have "y = x" by (auto dest: inj_onD)
  with y show "P x" by simp
next
  assume "P x"
  with assms(2) show "key x \<in> set (map key (filter P xs))" by auto
qed

lemma checkOverdueInvoices_result:
  assumes pk: "invoiceIdsDistinct s" and fk: "invoiceProjectsExist s"
  shows "checkOverdueInvoices t s =
     (Inr (length (filter (\<lambda>i. inv_status i = PENDING \<and> dueDate i < t) (invoices s))),
      s\<lparr>invoices := map (\<lambda>i. if inv_status i = PENDING \<and> dueDate i < t
                              then i\<lparr>inv_status := OVERDUE\<rparr> else i) (invoices s),
        projects := map (\<lambda>p. if \<exists>i \<in> set (invoices s).
                                   inv_status i = PENDING \<and> dueDate i < t \<and> inv_projectId i = proj_id p
                              then p\<lparr>proj_isActive := False\<rparr> else p) (projects s)\<rparr>)"
proof -
  let ?ovs = "filter (isOverdue t) (invoices s)"
  have sub1: "set (map inv_id ?ovs) \<subseteq> set (map inv_id (invoices s))" by auto
  have sub2: "set (map inv_projectId ?ovs) \<subseteq> set (map proj_id (projects s))"
    using fk unfolding invoiceProjectsExist_def by auto
  have inv_eq: "map (\<lambda>i. if inv_id i \<in> set (map inv_id ?ovs) then i\<lparr>inv_status := OVERDUE\<rparr> else i) (invoices s)
      = map (\<lambda>i. if inv_status i = PENDING \<and> dueDate i < t then i\<lparr>inv_status := OVERDUE\<rparr> else i) (invoices s)"
  proof (rule map_cong [OF refl])
    fix i assume "i \<in> set (invoices s)"
    then have "inv_id i \<in> set (map inv_id ?ovs) \<longleftrightarrow> isOverdue t i"
      using pk unfolding invoiceIdsDistinct_def by (rule distinct_key_filter [rotated])
    then show "(if inv_id i \<in> set (map inv_id ?ovs) then i\<lparr>inv_status := OVERDUE\<rparr> else i)
      = (if inv_status i = PENDING \<and> dueDate i < t then i\<lparr>inv_status := OVERDUE\<rparr> else i)"
      by (simp add: isOverdue_def)
  qed
  have proj_eq: "map (\<lambda>p. if proj_id p \<in> set (map inv_projectId ?ovs) then p\<lparr>proj_isActive := False\<rparr> else p) (projects s)
      = map (\<lambda>p. if \<exists>i \<in> set (invoices s).
                                   inv_status i = PENDING \<and> dueDate i < t \<and> inv_projectId i = proj_id p
                              then p\<lparr>proj_isActive := False\<rparr> else p) (projects s)"
  proof (rule map_cong [OF refl])
    fix p
    have "proj_id p \<in> set (map inv_projectId ?ovs)
       \<longleftrightarrow> (\<exists>i \<in> set (invoices s). inv_status i = PENDING \<and> dueDate i < t \<and> inv_projectId i = proj_id p)"
      by (force simp: isOverdue_def image_iff)
    then show "(if proj_id p \<in> set (map inv_projectId ?ovs) then p\<lparr>proj_isActive := False\<rparr> else p)
      = (if \<exists>i \<in> set (invoices s).
                                   inv_status i = PENDING \<and> dueDate i < t \<and> inv_projectId i = proj_id p
                              then p\<lparr>proj_isActive := False\<rparr> else p)"
      by simp
  qed
  have len: "length ?ovs = length (filter (\<lambda>i. inv_status i = PENDING \<and> dueDate i < t) (invoices s))"
    by (simp add: isOverdue_fun)
  show ?thesis
    unfolding checkOverdueInvoices_def Let_def overdueLoop_result [OF sub1 sub2] inv_eq proj_eq len
    by simp
qed

text \<open>
  Claim C2. On a store whose invoice ids are distinct and whose invoices belong to
  existing projects, \<open>checkOverdueInvoices\<close> rewrites exactly the invoices that are
  \<open>PENDING\<close> with \<open>dueDate\<close> strictly before the current time, to \<open>OVERDUE\<close>; every
  other invoice (paid, already overdue, or not yet due) is left as it is, so no
  invoice goes back to \<open>PENDING\<close>. The project of each invoice so marked is
  inactive afterwards, and the result is the number of invoices marked.
\<close>

theorem checkOverdueInvoices_sweep:
  assumes pk: "invoiceIdsDistinct s" and fk: "invoiceProjectsExist s"
  shows "checkOverdueInvoices t s =
     (Inr (length (filter (\<lambda>i. inv_status i = PENDING \<and> dueDate i < t) (invoices s))),
      s\<lparr>invoices := map (\<lambda>i. if inv_status i = PENDING \<and> dueDate i < t
                              then i\<lparr>inv_status := OVERDUE\<rparr> else i) (invoices s),
        projects := map (\<lambda>p. if \<exists>i \<in> set (invoices s).
                                   inv_status i = PENDING \<and> dueDate i < t \<and> inv_projectId i = proj_id p
                              then p\<lparr>proj_isActive := False\<rparr> else p) (projects s)\<rparr>)
   \<and> (\<forall>i \<in> set (invoices s). inv_status i = PENDING \<and> dueDate i < t \<longrightarrow>
        (\<forall>p \<in> set (projects (snd (checkOverdueInvoices t s))).
           proj_id p = inv_projectId i \<longrightarrow> \<not> proj_isActive p))"
  unfolding checkOverdueInvoices_result [OF pk fk] by auto

theorem checkOverdueInvoices_sweep_witness:
  "invoiceIdsDistinct exampleStore \<and> invoiceProjectsExist exampleStore
   \<and> checkOverdueInvoices 6000 exampleStore
       = (Inr 1, exampleStore\<lparr>invoices := [invoiceI1, invoiceI2\<lparr>inv_status := OVERDUE\<rparr>, invoiceI3],
                              projects := [projectP1, projectP2\<lparr>proj_isActive := False\<rparr>]\<rparr>)"
proof -
  have pk: "invoiceIdsDistinct exampleStore"
    by (simp add: invoiceIdsDistinct_def exampleStore_defs)
  have fk: "invoiceProjectsExist exampleStore"
    by (simp add: invoiceProjectsExist_def exampleStore_defs)
  have "checkOverdueInvoices 6000 exampleStore
       = (Inr 1, exampleStore\<lparr>invoices := [invoiceI1, invoiceI2\<lparr>inv_status := OVERDUE\<rparr>, invoiceI3],
                              projects := [projectP1, projectP2\<lparr>proj_isActive := False\<rparr>]\<rparr>)"
    using checkOverdueInvoices_sweep [OF pk fk, of 6000]
    by (simp add: exampleStore_defs)
  with pk fk show ?thesis by simp
qed

section \<open>Monthly invoicing\<close>

lemma find_Some_holds: "find P xs = Some x \<Longrightarrow> P x \<and> x \<in> set xs"
  by (induction xs) (auto split: if_splits)

lemma foldl_add_sum_list:
  "foldl (\<lambda>acc x. acc + f x) a xs = (a::rat) + sum_list (map f xs)"
  by (induction xs arbitrary: a) simp_all

lemma sumApplicationPrices_sum_list:
  "sumApplicationPrices tenantApps = sum_list (map appPrice tenantApps)"
  by (simp add: sumApplicationPrices_def foldl_add_sum_list)

lemma calculateBilling_Inr:
  assumes "calculateBilling e projectId s = Inr c"
  shows "\<exists>project subscription users.
           findProject projectId s = Some project
         \<and> findActiveSubscription projectId s = Some subscription
         \<and> map_of (tenantDbs s) (dbConnectionString project) = Some users
         \<and> fault e \<notin> {ProjectFindFails, SubscriptionFindFails, UserCountFails}
         \<and> c = billingOf e subscription (activeTenantApplications projectId s)
                 (length (filter tu_isActive users))"
  using assms
  by (auto simp: calculateBilling_def split: if_splits option.splits)

lemma calculateBilling_succeeds:
  assumes "findProject projectId s = Some project"
    and "findActiveSubscription projectId s = Some subscription"
    and "map_of (tenantDbs s) (dbConnectionString project) = Some users"
    and "fault e \<notin> {ProjectFindFails, SubscriptionFindFails, UserCountFails}"
  shows "calculateBilling e projectId s
           = Inr (billingOf e subscription (activeTenantApplications projectId s)
                    (length (filter tu_isActive users)))"
  using assms by (simp add: calculateBilling_def)

lemma findActiveSubscription_id:
  "findActiveSubscription projectId s = Some subscription
     \<Longrightarrow> sub_id subscription \<in> set (map sub_id (subscriptions s))"
  unfolding findActiveSubscription_def by (auto dest: find_Some_holds)

lemma generateMonthlyInvoice_cases:
  assumes "generateMonthlyInvoice e projectId s = (r, s')"
  shows "(isl r \<and> s' = s)
       \<or> (\<exists>c subscription.
             calculateBilling e projectId s = Inr c
           \<and> findActiveSubscription projectId s = Some subscription
           \<and> newId e \<notin> set (map inv_id (invoices s))
           \<and> generateInvoiceNumber e \<notin> set (map invoiceNumber (invoices s))
           \<and> ((fault e = SubscriptionUpdateFails \<and> r = Inl StoreUnavailable
                 \<and> s' = s\<lparr>invoices := invoices s @ [invoiceData e projectId subscription c]\<rparr>)
              \<or> (fault e = NoFault \<and> r = Inr (invoiceData e projectId subscription c)
                 \<and> s' = billed e subscription (invoiceData e projectId subscription c) s)))"
proof (cases "calculateBilling e projectId s")
  case (Inl err)
  with assms show ?thesis by (auto simp: generateMonthlyInvoice_def)
next
  case (Inr c)
  show ?thesis
  proof (cases "findActiveSubscription projectId s")
    case None
    with Inr assms show ?thesis by (auto simp: generateMonthlyInvoice_def split: if_splits)
  next
    case (Some subscription)
    have flt: "fault e \<notin> {ProjectFindFails, SubscriptionFindFails, UserCountFails}"
      using calculateBilling_Inr [OF Inr] by blast
    have mem: "sub_id subscription \<in> set (map sub_id (subscriptions s))"
      using Some by (rule findActiveSubscription_id)
    show ?thesis
    proof (cases "createInvoice (invoiceData e projectId subscription c) s")
      case (Inl err)
      with Inr Some assms show ?thesis
        by (auto simp: generateMonthlyInvoice_def split: if_splits)
    next
      case created: (Inr s1)
      then have s1: "s1 = s\<lparr>invoices := invoices s @ [invoiceData e projectId subscription c]\<rparr>"
        and fresh: "newId e \<notin> set (map inv_id (invoices s))"
          "generateInvoiceNumber e \<notin> set (map invoiceNumber (invoices s))"
        by (auto simp: createInvoice_def invoiceData_def split: if_splits)
      have upd: "updateSubscription (sub_id subscription) (advanceBilling e) s1
                   = Inr (billed e subscription (invoiceData e projectId subscription c) s)"
        using mem by (simp add: updateSubscription_def s1 billed_def)
      show ?thesis
      proof (cases "fault e")
        case NoFault
        with Inr Some created upd assms fresh show ?thesis
          by (auto simp: generateMonthlyInvoice_def)
      next
        case SubscriptionUpdateFails
        with Inr Some created s1 assms fresh show ?thesis
          by (auto simp: generateMonthlyInvoice_def)
      next
        case SubscriptionRefindFails
        with Inr Some assms show ?thesis by (auto simp: generateMonthlyInvoice_def)
      next
        case InvoiceCreateFails
        with Inr Some assms show ?thesis by (auto simp: generateMonthlyInvoice_def)
      qed (use flt in simp_all)
    qed
  qed
qed

lemma generateMonthlyInvoice_update_fails:
  assumes "calculateBilling e projectId s = Inr c"
    and "findActiveSubscription projectId s = Some subscription"
    and "newId e \<notin> set (map inv_id (invoices s))"
    and "generateInvoiceNumber e \<notin> set (map invoiceNumber (invoices s))"
    and "fault e = SubscriptionUpdateFails"
  shows "generateMonthlyInvoice e projectId s
           = (Inl StoreUnavailable, s\<lparr>invoices := invoices s @ [invoiceData e projectId subscription c]\<rparr>)"
  using assms by (simp add: generateMonthlyInvoice_def createInvoice_def invoiceData_def)

lemma generateMonthlyInvoice_succeeds:
  assumes "calculateBilling e projectId s = Inr c"
    and "findActiveSubscription projectId s = Some subscription"
    and "newId e \<notin> set (map inv_id (invoices s))"
    and "generateInvoiceNumber e \<notin> set (map invoiceNumber (invoices s))"
    and "fault e = NoFault"
  shows "generateMonthlyInvoice e projectId s
           = (Inr (invoiceData e projectId subscription c),
              billed e subscription (invoiceData e projectId subscription c) s)"
proof -
  have "sub_id subscription \<in> set (map sub_id (subscriptions s))"
    using assms(2) by (rule findActiveSubscription_id)
  then show ?thesis
    using assms
    by (simp add: generateMonthlyInvoice_def createInvoice_def updateSubscription_def billed_def
        invoiceData_def)
qed


section \<open>The amounts of a generated invoice\<close>

text \<open>
  Claim C5. Every invoice \<open>generateMonthlyInvoice\<close> adds to the store has
  \<open>amount = userAmount + applicationAmount\<close>, in exact arithmetic, where
  \<open>userAmount\<close> is the number of active users of the tenant database times the
  subscription's price per user, and \<open>applicationAmount\<close> is the sum, over the
  project's active selections, of the custom price if there is one and of the
  catalog price otherwise.
\<close>

theorem invoice_amount_exact:
  assumes new: "invoice \<in> set (invoices (snd (generateMonthlyInvoice e projectId s)))"
    and old: "invoice \<notin> set (invoices s)"
  shows "amount invoice = inv_userAmount invoice + inv_applicationAmount invoice
       \<and> (\<exists>project subscription users.
             findProject projectId s = Some project
           \<and> findActiveSubscription projectId s = Some subscription
           \<and> map_of (tenantDbs s) (dbConnectionString project) = Some users
           \<and> inv_userCount invoice = length (filter tu_isActive users)
           \<and> inv_userAmount invoice
               = of_nat (length (filter tu_isActive users)) * userPricePerMonth subscription)
       \<and> inv_applicationAmount invoice
           = (\<Sum>ta \<leftarrow> filter (\<lambda>ta. ta_projectId ta = projectId \<and> ta_isActive ta) (tenantApplications s).
                case customPrice ta of Some p \<Rightarrow> p | None \<Rightarrow> pricePerMonth (application ta))"
proof -
  obtain r s' where g: "generateMonthlyInvoice e projectId s = (r, s')"
    by (cases "generateMonthlyInvoice e projectId s")
  from generateMonthlyInvoice_cases [OF g] new old g
  obtain c subscription where c: "calculateBilling e projectId s = Inr c"
    and sub: "findActiveSubscription projectId s = Some subscription"
    and inv: "invoice = invoiceData e projectId subscription c"
    by (auto simp: billed_def)
  from calculateBilling_Inr [OF c] sub obtain project users
    where proj: "findProject projectId s = Some project"
      and users: "map_of (tenantDbs s) (dbConnectionString project) = Some users"
      and cdef: "c = billingOf e subscription (activeTenantApplications projectId s)
                      (length (filter tu_isActive users))"
    by auto
  have appfun: "appPrice = (\<lambda>ta. case customPrice ta of Some p \<Rightarrow> p | None \<Rightarrow> pricePerMonth (application ta))"
    by (rule ext) (simp add: appPrice_def)
  have total: "amount invoice = inv_userAmount invoice + inv_applicationAmount invoice"
    by (simp add: inv invoiceData_def cdef billingOf_def Let_def)
  have ua: "inv_userCount invoice = length (filter tu_isActive users)"
    "inv_userAmount invoice = of_nat (length (filter tu_isActive users)) * userPricePerMonth subscription"
    by (simp_all add: inv invoiceData_def cdef billingOf_def Let_def)
  have aa: "inv_applicationAmount invoice
           = (\<Sum>ta \<leftarrow> filter (\<lambda>ta. ta_projectId ta = projectId \<and> ta_isActive ta) (tenantApplications s).
                case customPrice ta of Some p \<Rightarrow> p | None \<Rightarrow> pricePerMonth (application ta))"
    by (simp add: inv invoiceData_def cdef billingOf_def Let_def sumApplicationPrices_sum_list
        activeTenantApplications_def appfun)
  from total ua aa proj sub users show ?thesis by blast
qed

theorem invoice_amount_exact_witness:
  "invoiceI4 \<in> set (invoices (snd (generateMonthlyInvoice exampleEnv ''p1'' exampleStore)))
   \<and> invoiceI4 \<notin> set (invoices exampleStore)
   \<and> amount invoiceI4 = inv_userAmount invoiceI4 + inv_applicationAmount invoiceI4
   \<and> inv_userAmount invoiceI4 = 3 * 10
   \<and> inv_applicationAmount invoiceI4 = 5 + 7"
proof -
  have new: "invoiceI4 \<in> set (invoices (snd (generateMonthlyInvoice exampleEnv ''p1'' exampleStore)))"
    by code_simp
  have old: "invoiceI4 \<notin> set (invoices exampleStore)"
    by code_simp
  from invoice_amount_exact [OF new old] new old show ?thesis
    by (simp add: invoiceI4_def)
qed

section \<open>The two writes of a monthly invoice\<close>

text \<open>
  Claim C3, as amended. \<open>generateMonthlyInvoice\<close> applies the invoice insert and the
  subscription update as two separate writes, the invoice first, with no
  transaction. When the call succeeds both are applied. When it fails anywhere up
  to and including the insert the store is unchanged. When the subscription
  update fails, the new invoice stays in the store while \<open>lastBilled\<close> and
  \<open>nextBilling\<close> are not advanced. A subscription is never advanced without the
  new invoice.
\<close>

theorem generateMonthlyInvoice_two_writes:
  assumes run: "generateMonthlyInvoice e projectId s = (r, s')"
  shows "(\<forall>invoice. r = Inr invoice \<longrightarrow>
            invoices s' = invoices s @ [invoice]
            \<and> (\<exists>subscription. findActiveSubscription projectId s = Some subscription
                 \<and> subscriptions s'
                     = map (\<lambda>sb. if sub_id sb = sub_id subscription
                                  then sb\<lparr>lastBilled := Some (now e),
                                          nextBilling := getNextBillingDate (tza e) (now e)\<rparr>
                                  else sb) (subscriptions s)))
       \<and> (isl r \<and> fault e \<noteq> SubscriptionUpdateFails \<longrightarrow> s' = s)
       \<and> (fault e = SubscriptionUpdateFails \<longrightarrow>
            isl r \<and> subscriptions s' = subscriptions s
            \<and> (s' = s \<or> (\<exists>invoice. invoices s' = invoices s @ [invoice]))
            \<and> (\<forall>c subscription.
                  calculateBilling e projectId s = Inr c
                  \<and> findActiveSubscription projectId s = Some subscription
                  \<and> newId e \<notin> set (map inv_id (invoices s))
                  \<and> generateInvoiceNumber e \<notin> set (map invoiceNumber (invoices s))
                  \<longrightarrow> s' = s\<lparr>invoices := invoices s @ [invoiceData e projectId subscription c]\<rparr>))
       \<and> (subscriptions s' \<noteq> subscriptions s \<longrightarrow>
            (\<exists>invoice. r = Inr invoice \<and> invoices s' = invoices s @ [invoice]))"
proof -
  note cases = generateMonthlyInvoice_cases [OF run]
  have ok: "\<forall>invoice. r = Inr invoice \<longrightarrow>
            invoices s' = invoices s @ [invoice]
            \<and> (\<exists>subscription. findActiveSubscription projectId s = Some subscription
                 \<and> subscriptions s'
                     = map (\<lambda>sb. if sub_id sb = sub_id subscription
                                  then sb\<lparr>lastBilled := Some (now e),
                                          nextBilling := getNextBillingDate (tza e) (now e)\<rparr>
                                  else sb) (subscriptions s))"
    using cases by (auto simp: billed_def advanceBilling_def)
  have early: "isl r \<and> fault e \<noteq> SubscriptionUpdateFails \<longrightarrow> s' = s"
    using cases by auto
  have late: "fault e = SubscriptionUpdateFails \<longrightarrow>
            isl r \<and> subscriptions s' = subscriptions s
            \<and> (s' = s \<or> (\<exists>invoice. invoices s' = invoices s @ [invoice]))"
    using cases by auto
  have late2: "fault e = SubscriptionUpdateFails \<longrightarrow> (\<forall>c subscription.
                  calculateBilling e projectId s = Inr c
                  \<and> findActiveSubscription projectId s = Some subscription
                  \<and> newId e \<notin> set (map inv_id (invoices s))
                  \<and> generateInvoiceNumber e \<notin> set (map invoiceNumber (invoices s))
                  \<longrightarrow> s' = s\<lparr>invoices := invoices s @ [invoiceData e projectId subscription c]\<rparr>)"
    using generateMonthlyInvoice_update_fails [of e projectId s] run by auto
  have never: "subscriptions s' \<noteq> subscriptions s \<longrightarrow>
            (\<exists>invoice. r = Inr invoice \<and> invoices s' = invoices s @ [invoice])"
    using cases by (auto simp: billed_def)
  from ok early late late2 never show ?thesis by blast
qed

text \<open>
  The claim as stated fails: with the store out of reach for the subscription
  update, the run of 15 January leaves the new invoice \<open>i4\<close> in the store and every
  \<open>nextBilling\<close> as it was.
\<close>

theorem generateMonthlyInvoice_not_atomic:
  "fst (generateMonthlyInvoice updateFailsEnv ''p1'' exampleStore) = Inl StoreUnavailable
   \<and> invoices (snd (generateMonthlyInvoice updateFailsEnv ''p1'' exampleStore))
       = invoices exampleStore @ [invoiceI4]
   \<and> map nextBilling (subscriptions (snd (generateMonthlyInvoice updateFailsEnv ''p1'' exampleStore)))
       = map nextBilling (subscriptions exampleStore)"
  by code_simp

theorem generateMonthlyInvoice_two_writes_witness:
  "generateMonthlyInvoice updateFailsEnv ''p1'' exampleStore
     = (Inl StoreUnavailable, exampleStore\<lparr>invoices := invoices exampleStore @ [invoiceI4]\<rparr>)
   \<and> fault updateFailsEnv = SubscriptionUpdateFails
   \<and> subscriptions (exampleStore\<lparr>invoices := invoices exampleStore @ [invoiceI4]\<rparr>)
       = subscriptions exampleStore"
proof -
  have run: "generateMonthlyInvoice updateFailsEnv ''p1'' exampleStore
     = (Inl StoreUnavailable, exampleStore\<lparr>invoices := invoices exampleStore @ [invoiceI4]\<rparr>)"
    by code_simp
  from generateMonthlyInvoice_two_writes [OF run] run show ?thesis
    by (simp add: updateFailsEnv_def)
qed

section \<open>The monthly run\<close>

lemma calculateBilling_project_exists:
  "calculateBilling e projectId s = Inr c \<Longrightarrow> projectId \<in> set (map proj_id (projects s))"
  by (auto dest!: calculateBilling_Inr find_key_mem simp: findProject_def)

lemma generateMonthlyInvoice_keeps_fk:
  assumes "invoiceProjectsExist s"
  shows "invoiceProjectsExist (snd (generateMonthlyInvoice e projectId s))"
proof -
  obtain r s' where g: "generateMonthlyInvoice e projectId s = (r, s')"
    by (cases "generateMonthlyInvoice e projectId s")
  from generateMonthlyInvoice_cases [OF g]
  consider "s' = s"
    | c subscription where "calculateBilling e projectId s = Inr c"
        "projects s' = projects s"
        "invoices s' = invoices s @ [invoiceData e projectId subscription c]"
    by (auto simp: billed_def)
  then show ?thesis
  proof cases
    case 1
    with assms g show ?thesis by simp
  next
    case 2
    have "projectId \<in> set (map proj_id (projects s))"
      using 2(1) by (rule calculateBilling_project_exists)
    moreover have "inv_projectId (invoiceData e projectId subscription c) = projectId"
      by (simp add: invoiceData_def)
    ultimately show ?thesis
      using assms 2(2,3) unfolding g invoiceProjectsExist_def by simp
  qed
qed

lemma generateMonthlyInvoice_count:
  assumes "generateMonthlyInvoice e projectId s = (r, s')"
  shows "(\<not> isl r \<longrightarrow> length (invoices s') = Suc (length (invoices s)))
       \<and> (isl r \<longrightarrow> length (invoices s) \<le> length (invoices s'))
       \<and> (isl r \<and> fault e \<noteq> SubscriptionUpdateFails \<longrightarrow> length (invoices s') = length (invoices s))"
  using generateMonthlyInvoice_cases [OF assms] by (auto simp: billed_def)

lemma billingLoop_counts:
  assumes "billingLoop envs i subs p e s = (p', e', s')"
  shows "p' + e' = p + e + length subs \<and> p \<le> p'
       \<and> length (invoices s) + (p' - p) \<le> length (invoices s')
       \<and> ((\<forall>j. fault (envs j) \<noteq> SubscriptionUpdateFails)
             \<longrightarrow> length (invoices s') = length (invoices s) + (p' - p))
       \<and> (invoiceProjectsExist s \<longrightarrow> invoiceProjectsExist s')"
  using assms
proof (induction subs arbitrary: i p e s)
  case Nil
  then show ?case by simp
next
  case (Cons sub subs)
  obtain r s1 where g: "generateMonthlyInvoice (envs i) (sub_projectId sub) s = (r, s1)"
    by (cases "generateMonthlyInvoice (envs i) (sub_projectId sub) s")
  note cnt = generateMonthlyInvoice_count [OF g]
  have fk: "invoiceProjectsExist s \<longrightarrow> invoiceProjectsExist s1"
    using generateMonthlyInvoice_keeps_fk [of s "envs i" "sub_projectId sub"] g by simp
  show ?case
  proof (cases r)
    case (Inl err)
    with Cons.prems g have "billingLoop envs (Suc i) subs p (Suc e) s1 = (p', e', s')" by simp
    from Cons.IH [OF this] cnt fk Inl show ?thesis by auto
  next
    case (Inr invoice)
    with Cons.prems g have "billingLoop envs (Suc i) subs (Suc p) e s1 = (p', e', s')" by simp
    from Cons.IH [OF this] cnt fk Inr show ?thesis by auto
  qed
qed

lemma checkOverdueInvoices_returns:
  assumes "invoiceProjectsExist s"
  shows "fst (checkOverdueInvoices t s) = Inr (length (filter (isOverdue t) (invoices s)))"
proof -
  let ?ovs = "filter (isOverdue t) (invoices s)"
  have sub1: "set (map inv_id ?ovs) \<subseteq> set (map inv_id (invoices s))" by auto
  have sub2: "set (map inv_projectId ?ovs) \<subseteq> set (map proj_id (projects s))"
    using assms unfolding invoiceProjectsExist_def by auto
  show ?thesis
    unfolding checkOverdueInvoices_def Let_def overdueLoop_result [OF sub1 sub2] by simp
qed

lemma zero_usage_invoice:
  assumes "findProject projectId s = Some project"
    and "findActiveSubscription projectId s = Some subscription"
    and "map_of (tenantDbs s) (dbConnectionString project) = Some users"
    and "filter tu_isActive users = []"
    and "filter (\<lambda>ta. ta_projectId ta = projectId \<and> ta_isActive ta) (tenantApplications s) = []"
    and "fault e = NoFault"
    and "newId e \<notin> set (map inv_id (invoices s))"
    and "generateInvoiceNumber e \<notin> set (map invoiceNumber (invoices s))"
  shows "\<exists>invoice s'. generateMonthlyInvoice e projectId s = (Inr invoice, s')
           \<and> amount invoice = 0 \<and> inv_status invoice = PENDING
           \<and> invoices s' = invoices s @ [invoice]"
proof -
  let ?c = "billingOf e subscription (activeTenantApplications projectId s) (length (filter tu_isActive users))"
  have c: "calculateBilling e projectId s = Inr ?c"
    using assms(1,2,3,6) by (intro calculateBilling_succeeds) simp_all
  have g: "generateMonthlyInvoice e projectId s
           = (Inr (invoiceData e projectId subscription ?c),
              billed e subscription (invoiceData e projectId subscription ?c) s)"
    using c assms(2,7,8,6) by (rule generateMonthlyInvoice_succeeds)
  have "amount (invoiceData e projectId subscription ?c) = 0"
    using assms(4,5)
    by (simp add: invoiceData_def billingOf_def Let_def activeTenantApplications_def
        sumApplicationPrices_def)
  with g show ?thesis
    by (simp add: billed_def) (simp add: invoiceData_def)
qed

lemma iterations_length: "length (iterations envs i subs s) = length subs"
  by (induction subs arbitrary: i s) simp_all

lemma iterations_nth:
  "k < length subs \<Longrightarrow>
     iterations envs i subs s ! k
       = generateMonthlyInvoice (envs (i + k)) (sub_projectId (subs ! k))
           (if k = 0 then s else snd (iterations envs i subs s ! (k - 1)))"
proof (induction subs arbitrary: i s k)
  case Nil
  then show ?case by simp
next
  case (Cons sub rest)
  show ?case
  proof (cases k)
    case 0
    then show ?thesis by simp
  next
    case (Suc k')
    with Cons.prems have k': "k' < length rest" by simp
    show ?thesis
      using Cons.IH [OF k', of "Suc i" "snd (generateMonthlyInvoice (envs i) (sub_projectId sub) s)"]
      by (cases k') (simp_all add: Suc)
  qed
qed

lemma billingLoop_iterations:
  "billingLoop envs i subs p e s
     = (p + length (filter (\<lambda>r. \<not> isl (fst r)) (iterations envs i subs s)),
        e + length (filter (\<lambda>r. isl (fst r)) (iterations envs i subs s)),
        if subs = [] then s else snd (last (iterations envs i subs s)))"
proof (induction subs arbitrary: i p e s)
  case Nil
  then show ?case by simp
next
  case (Cons sub rest)
  obtain r s1 where g: "generateMonthlyInvoice (envs i) (sub_projectId sub) s = (r, s1)"
    by (cases "generateMonthlyInvoice (envs i) (sub_projectId sub) s")
  have e: "iterations envs (Suc i) rest s1 = [] \<longleftrightarrow> rest = []"
    using iterations_length [of envs "Suc i" rest s1] by (metis length_0_conv)
  show ?case
    by (cases r) (simp_all add: g Cons.IH e)
qed

lemma generateMonthlyInvoice_frame:
  assumes "generateMonthlyInvoice e projectId s = (r, s')"
  shows "projects s' = projects s \<and> tenantDbs s' = tenantDbs s
       \<and> tenantApplications s' = tenantApplications s
       \<and> map (\<lambda>sb. (sub_projectId sb, sub_isActive sb)) (subscriptions s')
           = map (\<lambda>sb. (sub_projectId sb, sub_isActive sb)) (subscriptions s)
       \<and> (\<exists>new. invoices s' = invoices s @ new
             \<and> (new = [] \<or> (\<exists>inv. new = [inv] \<and> inv_id inv = newId e
                                \<and> invoiceNumber inv = generateInvoiceNumber e
                                \<and> inv_projectId inv = projectId))
             \<and> (\<forall>invoice. r = Inr invoice \<longrightarrow> new = [invoice]))"
proof -
  have keys: "map (\<lambda>sb. (sub_projectId sb, sub_isActive sb))
                (map (\<lambda>sb. if sub_id sb = k then advanceBilling e sb else sb) xs)
              = map (\<lambda>sb. (sub_projectId sb, sub_isActive sb)) xs" for k xs
    by (induction xs) (simp_all add: advanceBilling_def)
  from generateMonthlyInvoice_cases [OF assms]
  consider "isl r" "s' = s"
    | c sub where "r = Inl StoreUnavailable"
        "s' = s\<lparr>invoices := invoices s @ [invoiceData e projectId sub c]\<rparr>"
    | c sub where "r = Inr (invoiceData e projectId sub c)"
        "s' = billed e sub (invoiceData e projectId sub c) s"
    by auto
  then show ?thesis
  proof cases
    case 1
    then show ?thesis by (cases r) auto
  next
    case 2
    then show ?thesis by (simp add: invoiceData_def)
  next
    case 3
    then show ?thesis by (simp add: billed_def keys del: map_map) (simp add: invoiceData_def)
  qed
qed


lemma run_frame:
  assumes B0: "B 0 = s"
    and step: "\<forall>k<n. B (Suc k) = snd (generateMonthlyInvoice (envs k) (pid k) (B k))"
    and k: "k \<le> n"
  shows "projects (B k) = projects s \<and> tenantDbs (B k) = tenantDbs s
       \<and> tenantApplications (B k) = tenantApplications s
       \<and> map (\<lambda>sb. (sub_projectId sb, sub_isActive sb)) (subscriptions (B k))
           = map (\<lambda>sb. (sub_projectId sb, sub_isActive sb)) (subscriptions s)
       \<and> set (map inv_id (invoices (B k)))
           \<subseteq> set (map inv_id (invoices s)) \<union> (\<lambda>j. newId (envs j)) ` {..<k}
       \<and> set (map invoiceNumber (invoices (B k)))
           \<subseteq> set (map invoiceNumber (invoices s)) \<union> (\<lambda>j. generateInvoiceNumber (envs j)) ` {..<k}"
  using k
proof (induction k)
  case 0
  then show ?case by (simp add: B0)
next
  case (Suc k)
  then have kn: "k < n" and IH: "projects (B k) = projects s \<and> tenantDbs (B k) = tenantDbs s
       \<and> tenantApplications (B k) = tenantApplications s
       \<and> map (\<lambda>sb. (sub_projectId sb, sub_isActive sb)) (subscriptions (B k))
           = map (\<lambda>sb. (sub_projectId sb, sub_isActive sb)) (subscriptions s)
       \<and> set (map inv_id (invoices (B k)))
           \<subseteq> set (map inv_id (invoices s)) \<union> (\<lambda>j. newId (envs j)) ` {..<k}
       \<and> set (map invoiceNumber (invoices (B k)))
           \<subseteq> set (map invoiceNumber (invoices s)) \<union> (\<lambda>j. generateInvoiceNumber (envs j)) ` {..<k}"
    by simp_all
  obtain r where g: "generateMonthlyInvoice (envs k) (pid k) (B k) = (r, B (Suc k))"
    using step kn by (cases "generateMonthlyInvoice (envs k) (pid k) (B k)") auto
  note fr = generateMonthlyInvoice_frame [OF g]
  from fr obtain new where new: "invoices (B (Suc k)) = invoices (B k) @ new"
    "new = [] \<or> (\<exists>inv. new = [inv] \<and> inv_id inv = newId (envs k)
                                \<and> invoiceNumber inv = generateInvoiceNumber (envs k)
                                \<and> inv_projectId inv = pid k)"
    by blast
  have lt: "{..<Suc k} = insert k {..<k}" by auto
  have ids: "set (map inv_id (invoices (B (Suc k))))
           \<subseteq> set (map inv_id (invoices s)) \<union> (\<lambda>j. newId (envs j)) ` {..<Suc k}"
    using new IH unfolding lt by auto
  have nums: "set (map invoiceNumber (invoices (B (Suc k))))
           \<subseteq> set (map invoiceNumber (invoices s)) \<union> (\<lambda>j. generateInvoiceNumber (envs j)) ` {..<Suc k}"
    using new IH unfolding lt by auto
  from fr IH ids nums show ?case by simp
qed

lemma run_mono:
  assumes step: "\<forall>k<n. B (Suc k) = snd (generateMonthlyInvoice (envs k) (pid k) (B k))"
    and "k \<le> m" and "m \<le> n"
  shows "set (invoices (B k)) \<subseteq> set (invoices (B m))"
  using assms(2,3)
proof (induction m)
  case 0
  then show ?case by simp
next
  case (Suc m)
  show ?case
  proof (cases "k = Suc m")
    case True
    then show ?thesis by simp
  next
    case False
    with Suc.prems have km: "k \<le> m" and mn: "m < n" by simp_all
    obtain r where g: "generateMonthlyInvoice (envs m) (pid m) (B m) = (r, B (Suc m))"
      using step mn by (cases "generateMonthlyInvoice (envs m) (pid m) (B m)") auto
    from generateMonthlyInvoice_frame [OF g]
    have "set (invoices (B m)) \<subseteq> set (invoices (B (Suc m)))" by auto
    with Suc.IH [OF km] mn show ?thesis by simp
  qed
qed

lemma run_one_invoice:
  assumes step: "\<forall>k<n. B (Suc k) = snd (generateMonthlyInvoice (envs k) (pid k) (B k))"
    and B0: "B 0 = s"
    and k0: "k0 < n"
    and ok: "fst (generateMonthlyInvoice (envs k0) (pid k0) (B k0)) = Inr invoice"
    and others: "\<forall>j<n. j \<noteq> k0 \<longrightarrow> pid j \<noteq> pid k0"
    and m: "m \<le> n"
  shows "filter (\<lambda>i. inv_projectId i = pid k0) (invoices (B m))
           = filter (\<lambda>i. inv_projectId i = pid k0) (invoices s) @ (if k0 < m then [invoice] else [])"
  using m
proof (induction m)
  case 0
  then show ?case by (simp add: B0)
next
  case (Suc m)
  then have mn: "m < n" by simp
  obtain r where g: "generateMonthlyInvoice (envs m) (pid m) (B m) = (r, B (Suc m))"
    using step mn by (cases "generateMonthlyInvoice (envs m) (pid m) (B m)") auto
  from generateMonthlyInvoice_frame [OF g] obtain new
    where new: "invoices (B (Suc m)) = invoices (B m) @ new"
      "new = [] \<or> (\<exists>inv. new = [inv] \<and> inv_projectId inv = pid m)"
      "\<forall>invoice. r = Inr invoice \<longrightarrow> new = [invoice]"
    by blast
  have IH: "filter (\<lambda>i. inv_projectId i = pid k0) (invoices (B m))
           = filter (\<lambda>i. inv_projectId i = pid k0) (invoices s) @ (if k0 < m then [invoice] else [])"
    using Suc by simp
  show ?case
  proof (cases "m = k0")
    case True
    with ok g have "r = Inr invoice" by simp
    with new(3) have "new = [invoice]" by simp
    moreover have "inv_projectId invoice = pid k0"
      using new(2) True \<open>new = [invoice]\<close> by auto
    ultimately show ?thesis
      using new(1) IH True by simp
  next
    case False
    with others mn have "pid m \<noteq> pid k0" by simp
    with new(2) have "filter (\<lambda>i. inv_projectId i = pid k0) new = []" by auto
    with new(1) IH False show ?thesis by auto
  qed
qed


lemma run_success:
  assumes B0: "B 0 = s"
    and step: "\<forall>k<n. B (Suc k) = snd (generateMonthlyInvoice (envs k) (pid k) (B k))"
    and k: "k < n"
    and nofault: "fault (envs k) = NoFault"
    and proj: "findProject (pid k) s = Some project"
    and db: "map_of (tenantDbs s) (dbConnectionString project) = Some users"
    and active: "\<exists>sb \<in> set (subscriptions s). sub_projectId sb = pid k \<and> sub_isActive sb"
    and id1: "newId (envs k) \<notin> set (map inv_id (invoices s))"
    and id2: "\<forall>j<k. newId (envs j) \<noteq> newId (envs k)"
    and nr1: "generateInvoiceNumber (envs k) \<notin> set (map invoiceNumber (invoices s))"
    and nr2: "\<forall>j<k. generateInvoiceNumber (envs j) \<noteq> generateInvoiceNumber (envs k)"
  shows "\<exists>invoice. generateMonthlyInvoice (envs k) (pid k) (B k) = (Inr invoice, B (Suc k))
           \<and> inv_id invoice = newId (envs k) \<and> inv_projectId invoice = pid k
           \<and> inv_status invoice = PENDING
           \<and> (filter tu_isActive users = []
                \<and> filter (\<lambda>ta. ta_projectId ta = pid k \<and> ta_isActive ta) (tenantApplications s) = []
               \<longrightarrow> amount invoice = 0)"
proof -
  from k have "k \<le> n" by simp
  note fr = run_frame [OF B0 step this]
  have proj': "findProject (pid k) (B k) = Some project"
    using proj fr by (simp add: findProject_def)
  have db': "map_of (tenantDbs (B k)) (dbConnectionString project) = Some users"
    using db fr by simp
  have apps: "activeTenantApplications (pid k) (B k) = activeTenantApplications (pid k) s"
    using fr by (simp add: activeTenantApplications_def)
  have "(pid k, True) \<in> set (map (\<lambda>sb. (sub_projectId sb, sub_isActive sb)) (subscriptions s))"
    using active by force
  then have "(pid k, True) \<in> set (map (\<lambda>sb. (sub_projectId sb, sub_isActive sb)) (subscriptions (B k)))"
    using fr by simp
  then have "\<exists>sb \<in> set (subscriptions (B k)). sub_projectId sb = pid k \<and> sub_isActive sb"
    by auto
  then obtain sub where sub: "findActiveSubscription (pid k) (B k) = Some sub"
    unfolding findActiveSubscription_def
    by (cases "find (\<lambda>sb. sub_projectId sb = pid k \<and> sub_isActive sb) (subscriptions (B k))")
       (auto simp: find_None_iff)
  have fresh1: "newId (envs k) \<notin> set (map inv_id (invoices (B k)))"
  proof
    assume "newId (envs k) \<in> set (map inv_id (invoices (B k)))"
    with fr have "newId (envs k) \<in> set (map inv_id (invoices s)) \<union> (\<lambda>j. newId (envs j)) ` {..<k}"
      by blast
    with id1 obtain j where "j < k" "newId (envs k) = newId (envs j)" by blast
    with id2 show False by force
  qed
  have fresh2: "generateInvoiceNumber (envs k) \<notin> set (map invoiceNumber (invoices (B k)))"
  proof
    assume "generateInvoiceNumber (envs k) \<in> set (map invoiceNumber (invoices (B k)))"
    with fr have "generateInvoiceNumber (envs k)
        \<in> set (map invoiceNumber (invoices s)) \<union> (\<lambda>j. generateInvoiceNumber (envs j)) ` {..<k}"
      by blast
    with nr1 obtain j where "j < k" "generateInvoiceNumber (envs k) = generateInvoiceNumber (envs j)"
      by blast
    with nr2 show False by force
  qed
  let ?c = "billingOf (envs k) sub (activeTenantApplications (pid k) (B k))
              (length (filter tu_isActive users))"
  have c: "calculateBilling (envs k) (pid k) (B k) = Inr ?c"
    using proj' sub db' nofault by (intro calculateBilling_succeeds) simp_all
  have g: "generateMonthlyInvoice (envs k) (pid k) (B k)
           = (Inr (invoiceData (envs k) (pid k) sub ?c),
              billed (envs k) sub (invoiceData (envs k) (pid k) sub ?c) (B k))"
    using c sub fresh1 fresh2 nofault by (rule generateMonthlyInvoice_succeeds)
  have after: "B (Suc k) = billed (envs k) sub (invoiceData (envs k) (pid k) sub ?c) (B k)"
    using step k g by simp
  have zero: "filter tu_isActive users = []
                \<and> filter (\<lambda>ta. ta_projectId ta = pid k \<and> ta_isActive ta) (tenantApplications s) = []
               \<longrightarrow> amount (invoiceData (envs k) (pid k) sub ?c) = 0"
    using fr by (simp add: invoiceData_def billingOf_def Let_def activeTenantApplications_def
        sumApplicationPrices_def)
  have fields: "inv_id (invoiceData (envs k) (pid k) sub ?c) = newId (envs k)"
    "inv_projectId (invoiceData (envs k) (pid k) sub ?c) = pid k"
    "inv_status (invoiceData (envs k) (pid k) sub ?c) = PENDING"
    by (simp_all add: invoiceData_def)
  from g after zero fields show ?thesis by metis
qed


lemma billingLoop_trace:
  assumes act: "\<forall>sb \<in> set subs. sb \<in> set (subscriptions s) \<and> sub_isActive sb"
  shows "\<exists>trace.
            length trace = length subs
          \<and> (\<forall>k<length subs.
                trace ! k = generateMonthlyInvoice (envs k) (sub_projectId (subs ! k))
                               (if k = 0 then s else snd (trace ! (k - 1))))
          \<and> billingLoop envs 0 subs 0 0 s
              = (length (filter (\<lambda>r. \<not> isl (fst r)) trace),
                 length (filter (\<lambda>r. isl (fst r)) trace),
                 if subs = [] then s else snd (trace ! (length subs - 1)))
          \<and> (\<forall>k<length subs. \<forall>invoice. fst (trace ! k) = Inr invoice \<longrightarrow>
                  invoices (snd (trace ! k))
                    = invoices (if k = 0 then s else snd (trace ! (k - 1))) @ [invoice]
                \<and> inv_projectId invoice = sub_projectId (subs ! k)
                \<and> invoice \<in> set (invoices (if subs = [] then s else snd (trace ! (length subs - 1))))
                \<and> ((\<forall>j<length subs. j \<noteq> k \<longrightarrow> sub_projectId (subs ! j) \<noteq> sub_projectId (subs ! k))
                     \<longrightarrow> filter (\<lambda>i. inv_projectId i = sub_projectId (subs ! k))
                            (invoices (if subs = [] then s else snd (trace ! (length subs - 1))))
                         = filter (\<lambda>i. inv_projectId i = sub_projectId (subs ! k)) (invoices s)
                             @ [invoice]))
          \<and> (\<forall>k<length subs. \<forall>project users.
                  fault (envs k) = NoFault
                \<and> findProject (sub_projectId (subs ! k)) s = Some project
                \<and> map_of (tenantDbs s) (dbConnectionString project) = Some users
                \<and> newId (envs k) \<notin> set (map inv_id (invoices s))
                \<and> (\<forall>j<k. newId (envs j) \<noteq> newId (envs k))
                \<and> generateInvoiceNumber (envs k) \<notin> set (map invoiceNumber (invoices s))
                \<and> (\<forall>j<k. generateInvoiceNumber (envs j) \<noteq> generateInvoiceNumber (envs k))
                \<longrightarrow> (\<exists>invoice. fst (trace ! k) = Inr invoice
                       \<and> inv_id invoice = newId (envs k)
                       \<and> inv_status invoice = PENDING
                       \<and> (filter tu_isActive users = []
                            \<and> filter (\<lambda>ta. ta_projectId ta = sub_projectId (subs ! k) \<and> ta_isActive ta)
                                (tenantApplications s) = []
                           \<longrightarrow> amount invoice = 0)))"
proof -
  define trace where "trace = iterations envs 0 subs s"
  define n where "n = length subs"
  define B where "B k = (if k = 0 then s else snd (trace ! (k - 1)))" for k
  define pid where "pid k = sub_projectId (subs ! k)" for k
  have len: "length trace = n"
    by (simp add: trace_def n_def iterations_length)
  have nth: "trace ! k = generateMonthlyInvoice (envs k) (pid k) (B k)" if "k < n" for k
    using iterations_nth [of k subs envs 0 s] that by (simp add: trace_def n_def B_def pid_def)
  have B0: "B 0 = s" by (simp add: B_def)
  have BSuc: "B (Suc k) = snd (trace ! k)" for k by (simp add: B_def)
  have step: "\<forall>k<n. B (Suc k) = snd (generateMonthlyInvoice (envs k) (pid k) (B k))"
    using nth by (simp add: BSuc)
  have final: "(if subs = [] then s else snd (trace ! (length subs - 1))) = B n"
    by (cases subs) (simp_all add: B_def n_def)
  have lst: "subs \<noteq> [] \<Longrightarrow> last trace = trace ! (length subs - 1)"
    using len by (metis last_conv_nth length_0_conv n_def)
  have loop: "billingLoop envs 0 subs 0 0 s
              = (length (filter (\<lambda>r. \<not> isl (fst r)) trace),
                 length (filter (\<lambda>r. isl (fst r)) trace), B n)"
    unfolding billingLoop_iterations [of envs 0 subs 0 0 s] final [symmetric]
    using lst by (simp add: trace_def)
  have each: "invoices (snd (trace ! k)) = invoices (B k) @ [invoice]
                \<and> inv_projectId invoice = pid k
                \<and> invoice \<in> set (invoices (B n))
                \<and> ((\<forall>j<n. j \<noteq> k \<longrightarrow> pid j \<noteq> pid k)
                     \<longrightarrow> filter (\<lambda>i. inv_projectId i = pid k) (invoices (B n))
                         = filter (\<lambda>i. inv_projectId i = pid k) (invoices s) @ [invoice])"
    if k: "k < n" and ok: "fst (trace ! k) = Inr invoice" for k invoice
  proof -
    have g: "generateMonthlyInvoice (envs k) (pid k) (B k) = (Inr invoice, B (Suc k))"
      using nth [OF k] ok by (simp add: BSuc prod_eq_iff)
    from generateMonthlyInvoice_frame [OF g]
    have app: "invoices (B (Suc k)) = invoices (B k) @ [invoice]"
      and own: "inv_projectId invoice = pid k"
      by auto
    have "set (invoices (B (Suc k))) \<subseteq> set (invoices (B n))"
      using k by (intro run_mono [OF step]) simp_all
    with app have mem: "invoice \<in> set (invoices (B n))" by auto
    have ok': "fst (generateMonthlyInvoice (envs k) (pid k) (B k)) = Inr invoice"
      using g by simp
    have one: "filter (\<lambda>i. inv_projectId i = pid k) (invoices (B n))
                 = filter (\<lambda>i. inv_projectId i = pid k) (invoices s) @ [invoice]"
      if "\<forall>j<n. j \<noteq> k \<longrightarrow> pid j \<noteq> pid k"
      using run_one_invoice [OF step B0 k ok' that, of n] k by simp
    from app own mem one show ?thesis by (simp add: BSuc)
  qed
  have succ: "\<exists>invoice. fst (trace ! k) = Inr invoice
                       \<and> inv_id invoice = newId (envs k)
                       \<and> inv_status invoice = PENDING
                       \<and> (filter tu_isActive users = []
                            \<and> filter (\<lambda>ta. ta_projectId ta = pid k \<and> ta_isActive ta)
                                (tenantApplications s) = []
                           \<longrightarrow> amount invoice = 0)"
    if k: "k < n" and nf: "fault (envs k) = NoFault"
      and pr: "findProject (pid k) s = Some project"
      and db: "map_of (tenantDbs s) (dbConnectionString project) = Some users"
      and i1: "newId (envs k) \<notin> set (map inv_id (invoices s))"
      and i2: "\<forall>j<k. newId (envs j) \<noteq> newId (envs k)"
      and n1: "generateInvoiceNumber (envs k) \<notin> set (map invoiceNumber (invoices s))"
      and n2: "\<forall>j<k. generateInvoiceNumber (envs j) \<noteq> generateInvoiceNumber (envs k)"
    for k project users
  proof -
    have "subs ! k \<in> set subs" using k by (simp add: n_def)
    with act have "\<exists>sb \<in> set (subscriptions s). sub_projectId sb = pid k \<and> sub_isActive sb"
      unfolding pid_def by blast
    from run_success [OF B0 step k nf pr db this i1 i2 n1 n2] nth [OF k]
    show ?thesis by auto
  qed
  show ?thesis
  proof (intro exI [of _ trace] conjI)
    show "length trace = length subs"
      using len by (simp add: n_def)
    show "\<forall>k<length subs.
            trace ! k = generateMonthlyInvoice (envs k) (sub_projectId (subs ! k))
                           (if k = 0 then s else snd (trace ! (k - 1)))"
      using nth unfolding n_def pid_def B_def by blast
    show "billingLoop envs 0 subs 0 0 s
              = (length (filter (\<lambda>r. \<not> isl (fst r)) trace),
                 length (filter (\<lambda>r. isl (fst r)) trace),
                 if subs = [] then s else snd (trace ! (length subs - 1)))"
      using loop final by simp
    show "\<forall>k<length subs. \<forall>invoice. fst (trace ! k) = Inr invoice \<longrightarrow>
                  invoices (snd (trace ! k))
                    = invoices (if k = 0 then s else snd (trace ! (k - 1))) @ [invoice]
                \<and> inv_projectId invoice = sub_projectId (subs ! k)
                \<and> invoice \<in> set (invoices (if subs = [] then s else snd (trace ! (length subs - 1))))
                \<and> ((\<forall>j<length subs. j \<noteq> k \<longrightarrow> sub_projectId (subs ! j) \<noteq> sub_projectId (subs ! k))
                     \<longrightarrow> filter (\<lambda>i. inv_projectId i = sub_projectId (subs ! k))
                            (invoices (if subs = [] then s else snd (trace ! (length subs - 1))))
                         = filter (\<lambda>i. inv_projectId i = sub_projectId (subs ! k)) (invoices s)
                             @ [invoice])"
      unfolding final using each unfolding n_def pid_def B_def by blast
    show "\<forall>k<length subs. \<forall>project users.
                  fault (envs k) = NoFault
                \<and> findProject (sub_projectId (subs ! k)) s = Some project
                \<and> map_of (tenantDbs s) (dbConnectionString project) = Some users
                \<and> newId (envs k) \<notin> set (map inv_id (invoices s))
                \<and> (\<forall>j<k. newId (envs j) \<noteq> newId (envs k))
                \<and> generateInvoiceNumber (envs k) \<notin> set (map invoiceNumber (invoices s))
                \<and> (\<forall>j<k. generateInvoiceNumber (envs j) \<noteq> generateInvoiceNumber (envs k))
                \<longrightarrow> (\<exists>invoice. fst (trace ! k) = Inr invoice
                       \<and> inv_id invoice = newId (envs k)
                       \<and> inv_status invoice = PENDING
                       \<and> (filter tu_isActive users = []
                            \<and> filter (\<lambda>ta. ta_projectId ta = sub_projectId (subs ! k) \<and> ta_isActive ta)
                                (tenantApplications s) = []
                           \<longrightarrow> amount invoice = 0))"
      using succ unfolding n_def pid_def by blast
  qed
qed

text \<open>
  Claim C6. \<open>processMonthlyBilling\<close> runs \<open>generateMonthlyInvoice\<close> once for every
  active subscription, in the order they were read, each call on the store the
  call before it left: the calls are the entries of \<open>trace\<close>, one per active
  subscription, none skipped. \<open>processedCount\<close> is the number of calls that
  returned an invoice and \<open>errorCount\<close> the number that failed, so the two add up
  to the number of active subscriptions; a failed call counts one error and the
  loop goes on with the next subscription, a successful one counts one processed
  and the loop goes on likewise. A call that returned an invoice appended exactly
  that invoice, of the subscription's project, and the invoice is still there
  when the loop ends; when no other active subscription is of the same project it
  is the only invoice the run added for that project. An iteration without an
  injected fault, whose project and tenant database are there and whose fresh id
  and invoice number are those of no invoice already stored nor of an earlier
  iteration, succeeds, whatever the iterations before it did; with no active user
  and no active application its invoice is \<open>PENDING\<close> with amount 0. After the
  loop \<open>checkOverdueInvoices\<close> runs once, on the store the loop left: the run
  fails with the sweep's error if the sweep fails, and returns the three counts
  otherwise. On a store whose invoices all belong to stored projects the sweep
  does not fail, and \<open>overdueCount\<close> is the number of overdue invoices it found.
\<close>

theorem processMonthlyBilling_counts:
  "(\<exists>processed errors s1 subs trace.
            subs = filter sub_isActive (subscriptions s)
          \<and> billingLoop envs 0 (filter sub_isActive (subscriptions s)) 0 0 s = (processed, errors, s1)
          \<and> processMonthlyBilling envs t s
              = (case checkOverdueInvoices t s1 of
                   (Inl err, s2) \<Rightarrow> (Inl err, s2)
                 | (Inr overdue, s2) \<Rightarrow>
                     (Inr \<lparr>processedCount = processed, errorCount = errors,
                            overdueCount = overdue\<rparr>, s2))
          \<and> (invoiceProjectsExist s \<longrightarrow>
                (\<exists>s2. checkOverdueInvoices t s1
                         = (Inr (length (filter (isOverdue t) (invoices s1))), s2)
                     \<and> processMonthlyBilling envs t s
                         = (Inr \<lparr>processedCount = processed, errorCount = errors,
                                  overdueCount = length (filter (isOverdue t) (invoices s1))\<rparr>, s2)))
          \<and> processed + errors = length (filter sub_isActive (subscriptions s))
          \<and> length (invoices s) + processed \<le> length (invoices s1)
          \<and> ((\<forall>i. fault (envs i) \<noteq> SubscriptionUpdateFails)
                \<longrightarrow> length (invoices s1) = length (invoices s) + processed)
          \<and> length trace = length subs
          \<and> (\<forall>k<length subs.
                trace ! k = generateMonthlyInvoice (envs k) (sub_projectId (subs ! k))
                               (if k = 0 then s else snd (trace ! (k - 1))))
          \<and> processed = length (filter (\<lambda>r. \<not> isl (fst r)) trace)
          \<and> errors = length (filter (\<lambda>r. isl (fst r)) trace)
          \<and> s1 = (if subs = [] then s else snd (trace ! (length subs - 1)))
          \<and> (\<forall>k<length subs. \<forall>invoice. fst (trace ! k) = Inr invoice \<longrightarrow>
                  invoices (snd (trace ! k))
                    = invoices (if k = 0 then s else snd (trace ! (k - 1))) @ [invoice]
                \<and> inv_projectId invoice = sub_projectId (subs ! k)
                \<and> invoice \<in> set (invoices s1)
                \<and> ((\<forall>j<length subs. j \<noteq> k \<longrightarrow> sub_projectId (subs ! j) \<noteq> sub_projectId (subs ! k))
                     \<longrightarrow> filter (\<lambda>i. inv_projectId i = sub_projectId (subs ! k)) (invoices s1)
                         = filter (\<lambda>i. inv_projectId i = sub_projectId (subs ! k)) (invoices s)
                             @ [invoice]))
          \<and> (\<forall>k<length subs. \<forall>project users.
                  fault (envs k) = NoFault
                \<and> findProject (sub_projectId (subs ! k)) s = Some project
                \<and> map_of (tenantDbs s) (dbConnectionString project) = Some users
                \<and> newId (envs k) \<notin> set (map inv_id (invoices s))
                \<and> (\<forall>j<k. newId (envs j) \<noteq> newId (envs k))
                \<and> generateInvoiceNumber (envs k) \<notin> set (map invoiceNumber (invoices s))
                \<and> (\<forall>j<k. generateInvoiceNumber (envs j) \<noteq> generateInvoiceNumber (envs k))
                \<longrightarrow> (\<exists>invoice. fst (trace ! k) = Inr invoice
                       \<and> inv_id invoice = newId (envs k)
                       \<and> inv_status invoice = PENDING
                       \<and> (filter tu_isActive users = []
                            \<and> filter (\<lambda>ta. ta_projectId ta = sub_projectId (subs ! k) \<and> ta_isActive ta)
                                (tenantApplications s) = []
                           \<longrightarrow> amount invoice = 0))))
       \<and> (\<forall>i p e st. billingLoop envs i [] p e st = (p, e, st))
       \<and> (\<forall>i subscription rest p e st invoice st'.
             generateMonthlyInvoice (envs i) (sub_projectId subscription) st = (Inr invoice, st')
             \<longrightarrow> billingLoop envs i (subscription # rest) p e st
                   = billingLoop envs (Suc i) rest (Suc p) e st')
       \<and> (\<forall>i subscription rest p e st err st'.
             generateMonthlyInvoice (envs i) (sub_projectId subscription) st = (Inl err, st')
             \<longrightarrow> billingLoop envs i (subscription # rest) p e st
                   = billingLoop envs (Suc i) rest p (Suc e) st')
       \<and> (\<forall>e projectId st project subscription users.
             findProject projectId st = Some project
             \<and> findActiveSubscription projectId st = Some subscription
             \<and> map_of (tenantDbs st) (dbConnectionString project) = Some users
             \<and> filter tu_isActive users = []
             \<and> filter (\<lambda>ta. ta_projectId ta = projectId \<and> ta_isActive ta) (tenantApplications st) = []
             \<and> fault e = NoFault
             \<and> newId e \<notin> set (map inv_id (invoices st))
             \<and> generateInvoiceNumber e \<notin> set (map invoiceNumber (invoices st))
             \<longrightarrow> (\<exists>invoice st'. generateMonthlyInvoice e projectId st = (Inr invoice, st')
                    \<and> amount invoice = 0 \<and> inv_status invoice = PENDING
                    \<and> invoices st' = invoices st @ [invoice]))"
proof -
  define subs where "subs = filter sub_isActive (subscriptions s)"
  have act: "\<forall>sb \<in> set subs. sb \<in> set (subscriptions s) \<and> sub_isActive sb"
    by (simp add: subs_def)
  from billingLoop_trace [OF act, of envs] obtain trace where tr:
    "length trace = length subs"
    "\<forall>k<length subs.
                trace ! k = generateMonthlyInvoice (envs k) (sub_projectId (subs ! k))
                               (if k = 0 then s else snd (trace ! (k - 1)))"
    "billingLoop envs 0 subs 0 0 s
              = (length (filter (\<lambda>r. \<not> isl (fst r)) trace),
                 length (filter (\<lambda>r. isl (fst r)) trace),
                 if subs = [] then s else snd (trace ! (length subs - 1)))"
    "\<forall>k<length subs. \<forall>invoice. fst (trace ! k) = Inr invoice \<longrightarrow>
                  invoices (snd (trace ! k))
                    = invoices (if k = 0 then s else snd (trace ! (k - 1))) @ [invoice]
                \<and> inv_projectId invoice = sub_projectId (subs ! k)
                \<and> invoice \<in> set (invoices (if subs = [] then s else snd (trace ! (length subs - 1))))
                \<and> ((\<forall>j<length subs. j \<noteq> k \<longrightarrow> sub_projectId (subs ! j) \<noteq> sub_projectId (subs ! k))
                     \<longrightarrow> filter (\<lambda>i. inv_projectId i = sub_projectId (subs ! k))
                            (invoices (if subs = [] then s else snd (trace ! (length subs - 1))))
                         = filter (\<lambda>i. inv_projectId i = sub_projectId (subs ! k)) (invoices s)
                             @ [invoice])"
    "\<forall>k<length subs. \<forall>project users.
                  fault (envs k) = NoFault
                \<and> findProject (sub_projectId (subs ! k)) s = Some project
                \<and> map_of (tenantDbs s) (dbConnectionString project) = Some users
                \<and> newId (envs k) \<notin> set (map inv_id (invoices s))
                \<and> (\<forall>j<k. newId (envs j) \<noteq> newId (envs k))
                \<and> generateInvoiceNumber (envs k) \<notin> set (map invoiceNumber (invoices s))
                \<and> (\<forall>j<k. generateInvoiceNumber (envs j) \<noteq> generateInvoiceNumber (envs k))
                \<longrightarrow> (\<exists>invoice. fst (trace ! k) = Inr invoice
                       \<and> inv_id invoice = newId (envs k)
                       \<and> inv_status invoice = PENDING
                       \<and> (filter tu_isActive users = []
                            \<and> filter (\<lambda>ta. ta_projectId ta = sub_projectId (subs ! k) \<and> ta_isActive ta)
                                (tenantApplications s) = []
                           \<longrightarrow> amount invoice = 0))"
    by blast
  define processed where "processed = length (filter (\<lambda>r. \<not> isl (fst r)) trace)"
  define errors where "errors = length (filter (\<lambda>r. isl (fst r)) trace)"
  define s1 where "s1 = (if subs = [] then s else snd (trace ! (length subs - 1)))"
  have loop: "billingLoop envs 0 (filter sub_isActive (subscriptions s)) 0 0 s = (processed, errors, s1)"
    using tr(3) by (simp add: subs_def processed_def errors_def s1_def)
  note cnt = billingLoop_counts [OF loop]
  have general: "processMonthlyBilling envs t s
              = (case checkOverdueInvoices t s1 of
                   (Inl err, s2) \<Rightarrow> (Inl err, s2)
                 | (Inr overdue, s2) \<Rightarrow>
                     (Inr \<lparr>processedCount = processed, errorCount = errors,
                            overdueCount = overdue\<rparr>, s2))"
    by (simp add: processMonthlyBilling_def loop)
  have sweep: "invoiceProjectsExist s \<longrightarrow>
                (\<exists>s2. checkOverdueInvoices t s1
                         = (Inr (length (filter (isOverdue t) (invoices s1))), s2)
                     \<and> processMonthlyBilling envs t s
                         = (Inr \<lparr>processedCount = processed, errorCount = errors,
                                  overdueCount = length (filter (isOverdue t) (invoices s1))\<rparr>, s2))"
  proof
    assume fk: "invoiceProjectsExist s"
    have fk1: "invoiceProjectsExist s1"
      using cnt fk by simp
    obtain s2 where s2:
      "checkOverdueInvoices t s1 = (Inr (length (filter (isOverdue t) (invoices s1))), s2)"
      using checkOverdueInvoices_returns [OF fk1, of t]
      by (cases "checkOverdueInvoices t s1") auto
    then show "\<exists>s2. checkOverdueInvoices t s1
                         = (Inr (length (filter (isOverdue t) (invoices s1))), s2)
                     \<and> processMonthlyBilling envs t s
                         = (Inr \<lparr>processedCount = processed, errorCount = errors,
                                  overdueCount = length (filter (isOverdue t) (invoices s1))\<rparr>, s2)"
      by (simp add: general)
  qed
  have c1: "processed + errors = length (filter sub_isActive (subscriptions s))"
    and c2: "length (invoices s) + processed \<le> length (invoices s1)"
    and c3: "(\<forall>i. fault (envs i) \<noteq> SubscriptionUpdateFails)
                \<longrightarrow> length (invoices s1) = length (invoices s) + processed"
    using cnt by simp_all
  have part1: "(\<exists>processed errors s1 subs trace.
              subs = filter sub_isActive (subscriptions s)
            \<and> billingLoop envs 0 (filter sub_isActive (subscriptions s)) 0 0 s = (processed, errors, s1)
            \<and> processMonthlyBilling envs t s
                = (case checkOverdueInvoices t s1 of
                     (Inl err, s2) \<Rightarrow> (Inl err, s2)
                   | (Inr overdue, s2) \<Rightarrow>
                       (Inr \<lparr>processedCount = processed, errorCount = errors,
                              overdueCount = overdue\<rparr>, s2))
            \<and> (invoiceProjectsExist s \<longrightarrow>
                  (\<exists>s2. checkOverdueInvoices t s1
                           = (Inr (length (filter (isOverdue t) (invoices s1))), s2)
                       \<and> processMonthlyBilling envs t s
                           = (Inr \<lparr>processedCount = processed, errorCount = errors,
                                    overdueCount = length (filter (isOverdue t) (invoices s1))\<rparr>, s2)))
            \<and> processed + errors = length (filter sub_isActive (subscriptions s))
            \<and> length (invoices s) + processed \<le> length (invoices s1)
            \<and> ((\<forall>i. fault (envs i) \<noteq> SubscriptionUpdateFails)
                  \<longrightarrow> length (invoices s1) = length (invoices s) + processed)
            \<and> length trace = length subs
            \<and> (\<forall>k<length subs.
                  trace ! k = generateMonthlyInvoice (envs k) (sub_projectId (subs ! k))
                                 (if k = 0 then s else snd (trace ! (k - 1))))
            \<and> processed = length (filter (\<lambda>r. \<not> isl (fst r)) trace)
            \<and> errors = length (filter (\<lambda>r. isl (fst r)) trace)
            \<and> s1 = (if subs = [] then s else snd (trace ! (length subs - 1)))
            \<and> (\<forall>k<length subs. \<forall>invoice. fst (trace ! k) = Inr invoice \<longrightarrow>
                    invoices (snd (trace ! k))
                      = invoices (if k = 0 then s else snd (trace ! (k - 1))) @ [invoice]
                  \<and> inv_projectId invoice = sub_projectId (subs ! k)
                  \<and> invoice \<in> set (invoices s1)
                  \<and> ((\<forall>j<length subs. j \<noteq> k \<longrightarrow> sub_projectId (subs ! j) \<noteq> sub_projectId (subs ! k))
                       \<longrightarrow> filter (\<lambda>i. inv_projectId i = sub_projectId (subs ! k)) (invoices s1)
                           = filter (\<lambda>i. inv_projectId i = sub_projectId (subs ! k)) (invoices s)
                               @ [invoice]))
            \<and> (\<forall>k<length subs. \<forall>project users.
                    fault (envs k) = NoFault
                  \<and> findProject (sub_projectId (subs ! k)) s = Some project
                  \<and> map_of (tenantDbs s) (dbConnectionString project) = Some users
                  \<and> newId (envs k) \<notin> set (map inv_id (invoices s))
                  \<and> (\<forall>j<k. newId (envs j) \<noteq> newId (envs k))
                  \<and> generateInvoiceNumber (envs k) \<notin> set (map invoiceNumber (invoices s))
                  \<and> (\<forall>j<k. generateInvoiceNumber (envs j) \<noteq> generateInvoiceNumber (envs k))
                  \<longrightarrow> (\<exists>invoice. fst (trace ! k) = Inr invoice
                         \<and> inv_id invoice = newId (envs k)
                         \<and> inv_status invoice = PENDING
                         \<and> (filter tu_isActive users = []
                              \<and> filter (\<lambda>ta. ta_projectId ta = sub_projectId (subs ! k) \<and> ta_isActive ta)
                                  (tenantApplications s) = []
                             \<longrightarrow> amount invoice = 0))))"
    apply (rule exI [of _ processed], rule exI [of _ errors], rule exI [of _ s1])
    apply (rule exI [of _ subs], rule exI [of _ trace])
    apply (intro conjI)
                apply (rule subs_def)
               apply (rule loop)
              apply (rule general)
             apply (rule sweep)
            apply (rule c1)
           apply (rule c2)
          apply (rule c3)
         apply (rule tr(1))
        apply (rule tr(2))
       apply (rule processed_def)
      apply (rule errors_def)
     apply (rule s1_def)
    unfolding s1_def
     apply (rule tr(4))
    apply (rule tr(5))
    done
  have part2: "(\<forall>i p e st. billingLoop envs i [] p e st = (p, e, st))"
    by simp
  have part3: "(\<forall>i subscription rest p e st invoice st'.
             generateMonthlyInvoice (envs i) (sub_projectId subscription) st = (Inr invoice, st')
             \<longrightarrow> billingLoop envs i (subscription # rest) p e st
                   = billingLoop envs (Suc i) rest (Suc p) e st')"
    by simp
  have part4: "(\<forall>i subscription rest p e st err st'.
             generateMonthlyInvoice (envs i) (sub_projectId subscription) st = (Inl err, st')
             \<longrightarrow> billingLoop envs i (subscription # rest) p e st
                   = billingLoop envs (Suc i) rest p (Suc e) st')"
    by simp
  have part5: "(\<forall>e projectId st project subscription users.
             findProject projectId st = Some project
             \<and> findActiveSubscription projectId st = Some subscription
             \<and> map_of (tenantDbs st) (dbConnectionString project) = Some users
             \<and> filter tu_isActive users = []
             \<and> filter (\<lambda>ta. ta_projectId ta = projectId \<and> ta_isActive ta) (tenantApplications st) = []
             \<and> fault e = NoFault
             \<and> newId e \<notin> set (map inv_id (invoices st))
             \<and> generateInvoiceNumber e \<notin> set (map invoiceNumber (invoices st))
             \<longrightarrow> (\<exists>invoice st'. generateMonthlyInvoice e projectId st = (Inr invoice, st')
                    \<and> amount invoice = 0 \<and> inv_status invoice = PENDING
                    \<and> invoices st' = invoices st @ [invoice]))"
    using zero_usage_invoice by blast
  from part1 part2 part3 part4 part5 show ?thesis by blast
qed


theorem processMonthlyBilling_counts_witness:
  "invoiceProjectsExist threeTenantStore
   \<and> map sub_projectId (filter sub_isActive (subscriptions threeTenantStore)) = [''p1'', ''p2'', ''p3'']
   \<and> map (\<lambda>k. (fault (threeEnvs k), newId (threeEnvs k), generateInvoiceNumber (threeEnvs k))) [0, 1, 2]
       = [(NoFault, ''n0'', ''INV-1705320000000-K3X9Q0''),
          (NoFault, ''n1'', ''INV-1705320000000-K3X9Q1''),
          (NoFault, ''n2'', ''INV-1705320000000-K3X9Q2'')]
   \<and> map (\<lambda>i. (inv_id i, invoiceNumber i)) (invoices threeTenantStore)
       = [(''i1'', ''INV-100-AAAAAA''), (''i2'', ''INV-500-BBBBBB''), (''i3'', ''INV-90-CCCCCC'')]
   \<and> findProject ''p2'' threeTenantStore = Some projectP2
   \<and> map_of (tenantDbs threeTenantStore) (dbConnectionString projectP2) = Some []
   \<and> filter (\<lambda>ta. ta_projectId ta = ''p2'' \<and> ta_isActive ta) (tenantApplications threeTenantStore) = []
   \<and> fst (processMonthlyBilling threeEnvs 1705320000001 threeTenantStore)
       = Inr \<lparr>processedCount = 3, errorCount = 0, overdueCount = 1\<rparr>
   \<and> map (\<lambda>i. (inv_id i, inv_projectId i, amount i, inv_status i))
        (invoices (snd (processMonthlyBilling threeEnvs 1705320000001 threeTenantStore)))
       = [(''i1'', ''p1'', 30, OVERDUE), (''i2'', ''p2'', 0, OVERDUE), (''i3'', ''p2'', 20, PAID),
          (''n0'', ''p1'', 42, PENDING), (''n1'', ''p2'', 0, PENDING), (''n2'', ''p3'', 10, PENDING)]"
proof -
  have fk: "invoiceProjectsExist threeTenantStore"
    by code_simp
  have subs: "map sub_projectId (filter sub_isActive (subscriptions threeTenantStore))
                = [''p1'', ''p2'', ''p3'']"
    by code_simp
  have envs: "map (\<lambda>k. (fault (threeEnvs k), newId (threeEnvs k), generateInvoiceNumber (threeEnvs k))) [0, 1, 2]
       = [(NoFault, ''n0'', ''INV-1705320000000-K3X9Q0''),
          (NoFault, ''n1'', ''INV-1705320000000-K3X9Q1''),
          (NoFault, ''n2'', ''INV-1705320000000-K3X9Q2'')]"
    by code_simp
  have stored: "map (\<lambda>i. (inv_id i, invoiceNumber i)) (invoices threeTenantStore)
       = [(''i1'', ''INV-100-AAAAAA''), (''i2'', ''INV-500-BBBBBB''), (''i3'', ''INV-90-CCCCCC'')]"
    by code_simp
  have proj: "findProject ''p2'' threeTenantStore = Some projectP2"
    by code_simp
  have db: "map_of (tenantDbs threeTenantStore) (dbConnectionString projectP2) = Some []"
    by code_simp
  have apps: "filter (\<lambda>ta. ta_projectId ta = ''p2'' \<and> ta_isActive ta)
                (tenantApplications threeTenantStore) = []"
    by code_simp
  have run: "fst (processMonthlyBilling threeEnvs 1705320000001 threeTenantStore)
       = Inr \<lparr>processedCount = 3, errorCount = 0, overdueCount = 1\<rparr>"
    by code_simp
  have inv: "map (\<lambda>i. (inv_id i, inv_projectId i, amount i, inv_status i))
        (invoices (snd (processMonthlyBilling threeEnvs 1705320000001 threeTenantStore)))
       = [(''i1'', ''p1'', 30, OVERDUE), (''i2'', ''p2'', 0, OVERDUE), (''i3'', ''p2'', 20, PAID),
          (''n0'', ''p1'', 42, PENDING), (''n1'', ''p2'', 0, PENDING), (''n2'', ''p3'', 10, PENDING)]"
    by code_simp
  from processMonthlyBilling_counts
         [where s = threeTenantStore and envs = threeEnvs and t = 1705320000001]
    fk subs envs stored proj db apps run inv
  show ?thesis by simp
qed

section \<open>The due date of a monthly invoice\<close>

text \<open>
  The day number of the first of a month goes back to that date, so the day
  \<open>getNextBillingDate\<close> returns is followed by the first of a month: it is the last
  calendar day of a month, at local midnight.
\<close>

lemma month_of_day_of_year:
  fixes mp :: int
  shows "(5 * ((153 * mp + 2) div 5) + 2) div 153 = mp"
  by (rule int_div_pos_eq [where r = "5 * ((153 * mp + 2) div 5) + 2 - 153 * mp"]) linarith+

lemma year_of_era_of_day:
  fixes yoe doy doe :: int
  assumes yoe: "0 \<le> yoe" "yoe \<le> 399" and doy: "0 \<le> doy" "doy \<le> 337"
    and doe: "doe = yoe * 365 + yoe div 4 - yoe div 100 + doy"
  shows "(doe - doe div 1460 + doe div 36524 - doe div 146096) div 365 = yoe"
    and "0 \<le> doe" and "doe < 146097"
proof -
  define q where "q = yoe div 4"
  define c where "c = yoe div 100"
  define j where "j = yoe - 4 * q"
  define k where "k = q - 25 * c"
  have q: "4 * q \<le> yoe" "yoe \<le> 4 * q + 3"
    unfolding q_def by linarith+
  have c: "100 * c \<le> yoe" "yoe \<le> 100 * c + 99"
    unfolding c_def by linarith+
  have cb: "0 \<le> c" "c \<le> 3"
    using c yoe by linarith+
  have jb: "0 \<le> j" "j \<le> 3"
    unfolding j_def using q by linarith+
  have kb: "0 \<le> k" "k \<le> 24"
    unfolding k_def using q c by linarith+
  have doe': "doe = 36524 * c + 1461 * k + 365 * j + doy"
    by (simp add: doe q_def [symmetric] c_def [symmetric] j_def k_def)
  show nonneg: "0 \<le> doe" and "doe < 146097"
    unfolding doe' using cb jb kb doy by linarith+
  have d1: "doe div 36524 = c"
    by (rule int_div_pos_eq [where r = "1461 * k + 365 * j + doy"])
       (use doe' cb jb kb doy in linarith)+
  have d2: "doe div 146096 = 0"
    by (rule int_div_pos_eq [where r = doe]) (use doe' cb jb kb doy in linarith)+
  define R where "R = 24 * c + k + 365 * j + doy"
  have R: "0 \<le> R" "R \<le> 1528"
    unfolding R_def using cb jb kb doy by linarith+
  have doeR: "doe = 1460 * (25 * c + k) + R"
    unfolding R_def doe' by (simp add: algebra_simps)
  have N: "yoe = 100 * c + 4 * k + j"
    by (simp add: j_def k_def)
  show "(doe - doe div 1460 + doe div 36524 - doe div 146096) div 365 = yoe"
  proof (cases "R < 1460")
    case True
    have d3: "doe div 1460 = 25 * c + k"
      by (rule int_div_pos_eq [where r = R]) (use True R doeR in simp_all)
    show ?thesis
      unfolding d1 d2 d3
      by (rule int_div_pos_eq [where r = doy]) (use doe' N doy in linarith)+
  next
    case False
    have d3: "doe div 1460 = 25 * c + k + 1"
      by (rule int_div_pos_eq [where r = "R - 1460"]) (use False R doeR in simp_all)
    have "1 \<le> doy"
      using False R_def cb jb kb by linarith
    then show ?thesis
      unfolding d1 d2 d3
      by (intro int_div_pos_eq [where r = "doy - 1"]) (use doe' N doy in linarith)+
  qed
qed


lemma civilFromDays_first_of_month:
  assumes m: "1 \<le> m" "m \<le> 12"
  shows "civilFromDays (daysFromCivil y m 1) = (y, m, 1)"
proof -
  define y' where "y' = (if m \<le> 2 then y - 1 else y)"
  define mp where "mp = (if m > 2 then m - 3 else m + 9)"
  define era where "era = y' div 400"
  define yoe where "yoe = y' mod 400"
  define doy where "doy = (153 * mp + 2) div 5"
  define doe where "doe = yoe * 365 + yoe div 4 - yoe div 100 + doy"
  have mpb: "0 \<le> mp" "mp \<le> 11"
    unfolding mp_def using m by auto
  have doyb: "0 \<le> doy" "doy \<le> 337"
    unfolding doy_def using mpb by linarith+
  have yoeb: "0 \<le> yoe" "yoe \<le> 399"
    unfolding yoe_def by simp_all
  note ye = year_of_era_of_day [OF yoeb doyb doe_def]
  have z: "daysFromCivil y m 1 + 719468 = era * 146097 + doe"
    by (simp add: daysFromCivil_def Let_def y'_def mp_def era_def yoe_def doy_def doe_def)
  have e1: "(era * 146097 + doe) div 146097 = era"
    by (rule int_div_pos_eq [where r = doe]) (use ye in simp_all)
  have e2: "(era * 146097 + doe) mod 146097 = doe"
    by (rule int_mod_pos_eq [where q = era]) (use ye in simp_all)
  have doy': "doe - (365 * yoe + yoe div 4 - yoe div 100) = doy"
    by (simp add: doe_def)
  have mp': "(5 * doy + 2) div 153 = mp"
    unfolding doy_def by (rule month_of_day_of_year)
  have d': "doy - (153 * mp + 2) div 5 + 1 = 1"
    by (simp add: doy_def)
  have yr: "yoe + era * 400 = y'"
    by (simp add: yoe_def era_def)
  have mm: "(if mp < 10 then mp + 3 else mp - 9) = m"
    unfolding mp_def using m by auto
  have low: "(if m \<le> 2 then y' + 1 else y') = y"
    by (simp add: y'_def)
  show ?thesis
    unfolding civilFromDays_def Let_def z e1 e2 ye(1) doy' mp' d' yr mm low ..
qed

lemma getNextBillingDate_last_day:
  "getDate zone (getNextBillingDate zone t + msPerDay) = 1
   \<and> TimeWithinDay (LocalTime zone (getNextBillingDate zone t)) = 0"
proof -
  define yr where "yr = (if 0 \<le> getFullYear zone t \<and> getFullYear zone t \<le> 99
                          then 1900 + getFullYear zone t else getFullYear zone t)"
  define mo where "mo = getMonth zone t + 1"
  define first where "first = daysFromCivil (yr + mo div 12) (mo mod 12 + 1) 1"
  have nb: "getNextBillingDate zone t = (first - 1) * msPerDay - zone"
    by (simp add: getNextBillingDate_def newDate_def MakeDay_def Let_def yr_def mo_def first_def)
  have mb: "1 \<le> mo mod 12 + 1" "mo mod 12 + 1 \<le> 12"
    by simp_all
  have "LocalTime zone (getNextBillingDate zone t + msPerDay) = first * msPerDay"
    by (simp add: nb LocalTime_def algebra_simps)
  then have "Day (LocalTime zone (getNextBillingDate zone t + msPerDay)) = first"
    by (simp add: Day_def msPerDay_def)
  then have a: "getDate zone (getNextBillingDate zone t + msPerDay) = 1"
    by (simp add: getDate_def DateFromTime_def first_def civilFromDays_first_of_month [OF mb])
  have "LocalTime zone (getNextBillingDate zone t) = (first - 1) * msPerDay"
    by (simp add: nb LocalTime_def)
  then have b: "TimeWithinDay (LocalTime zone (getNextBillingDate zone t)) = 0"
    by (simp add: TimeWithinDay_def)
  from a b show ?thesis ..
qed

text \<open>
  So the \<open>nextBilling\<close> that \<open>createSubscription\<close> and \<open>generateMonthlyInvoice\<close> store
  is the last calendar day of a month at local midnight.
\<close>

lemma createSubscription_nextBilling:
  assumes "createSubscription e projectId userId userPrice applicationPrice s = (Inr sub, s')"
  shows "subscriptions s' = subscriptions s @ [sub]
       \<and> getDate (tza e) (nextBilling sub + msPerDay) = 1
       \<and> TimeWithinDay (LocalTime (tza e) (nextBilling sub)) = 0"
proof -
  from assms have nb: "nextBilling sub = getNextBillingDate (tza e) (now e)"
    and subs: "subscriptions s' = subscriptions s @ [sub]"
    by (auto simp: createSubscription_def createSubscriptionRow_def Let_def split: if_splits)
  from subs getNextBillingDate_last_day [of "tza e" "now e"] show ?thesis
    by (simp add: nb)
qed

lemma generateMonthlyInvoice_nextBilling:
  assumes "generateMonthlyInvoice e projectId s = (Inr invoice, s')"
  shows "\<exists>sub \<in> set (subscriptions s').
           sub_id sub = inv_subscriptionId invoice
         \<and> lastBilled sub = Some (now e)
         \<and> getDate (tza e) (nextBilling sub + msPerDay) = 1
         \<and> TimeWithinDay (LocalTime (tza e) (nextBilling sub)) = 0"
proof -
  from generateMonthlyInvoice_cases [OF assms]
  obtain c subscription where sub: "findActiveSubscription projectId s = Some subscription"
    and inv: "invoice = invoiceData e projectId subscription c"
    and s': "s' = billed e subscription invoice s"
    by auto
  have mem: "subscription \<in> set (subscriptions s)"
    using sub unfolding findActiveSubscription_def by (auto dest: find_Some_holds)
  then have "advanceBilling e subscription \<in> set (subscriptions s')"
    unfolding s' billed_def by (auto simp: image_iff intro!: bexI [of _ subscription])
  moreover have "sub_id (advanceBilling e subscription) = inv_subscriptionId invoice"
    "lastBilled (advanceBilling e subscription) = Some (now e)"
    "nextBilling (advanceBilling e subscription) = getNextBillingDate (tza e) (now e)"
    by (simp_all add: advanceBilling_def inv invoiceData_def)
  ultimately show ?thesis
    using getNextBillingDate_last_day [of "tza e" "now e"] by auto
qed

text \<open>
  Claim C4, at the scheduled time of the monthly run. \<open>getNextBillingDate\<close> is
  midnight at the start of the last day of the current month. On 31 January 2024
  at 23:59 that is 31 January 00:00, so the invoice \<open>generateMonthlyInvoice\<close>
  persists has a \<open>dueDate\<close> already in the past; the sweep that ends the same
  monthly run marks the new invoices \<open>OVERDUE\<close> and deactivates their projects.
\<close>

theorem dueDate_past_at_month_end:
  "now monthEndEnv = 1706745540000
   \<and> getNextBillingDate 0 1706745540000 = 1706659200000
   \<and> (getFullYear 0 1706745540000, getMonth 0 1706745540000, getDate 0 1706745540000) = (2024, 0, 31)
   \<and> (getFullYear 0 1706659200000, getMonth 0 1706659200000, getDate 0 1706659200000,
        TimeWithinDay 1706659200000) = (2024, 0, 31, 0)
   \<and> map (\<lambda>i. (inv_id i, dueDate i, dueDate i < now monthEndEnv))
        (invoices (snd (generateMonthlyInvoice monthEndEnv ''p2'' paidUpStore)))
       = [(''i3'', 400, True), (''i4'', 1706659200000, True)]
   \<and> fst (processMonthlyBilling monthEndEnvs 1706745540000 paidUpStore)
       = Inr \<lparr>processedCount = 2, errorCount = 0, overdueCount = 2\<rparr>
   \<and> map (\<lambda>i. (inv_id i, inv_status i))
        (invoices (snd (processMonthlyBilling monthEndEnvs 1706745540000 paidUpStore)))
       = [(''i3'', PAID), (''i4'', OVERDUE), (''i5'', OVERDUE)]
   \<and> map (\<lambda>p. (proj_id p, proj_isActive p)) (projects paidUpStore)
       = [(''p1'', True), (''p2'', True)]
   \<and> map (\<lambda>p. (proj_id p, proj_isActive p))
        (projects (snd (processMonthlyBilling monthEndEnvs 1706745540000 paidUpStore)))
       = [(''p1'', False), (''p2'', False)]"
  by code_simp


section \<open>Domain normalisation is a single pass\<close>

lemmas normalizeDomain_defs = normalizeDomain_def trim_def removeTrailingSlash_def
  removeProtocol_def toLowerCase_def toLowerChar_def isWhiteSpace_def

text \<open>
  The result of \<open>normalizeDomain\<close> is lower-case and trimmed, so a second
  application changes it exactly when a scheme prefix or a trailing slash is
  still there.
\<close>

lemma toLowerChar_idem: "toLowerChar (toLowerChar c) = toLowerChar c"
  by (simp add: toLowerChar_def)

lemma toLowerCase_fixed:
  assumes "set y \<subseteq> set (toLowerCase x)"
  shows "toLowerCase y = y"
proof -
  have "\<forall>c \<in> set y. toLowerChar c = c"
    using assms by (auto simp: toLowerCase_def toLowerChar_idem)
  then show ?thesis
    unfolding toLowerCase_def by (simp add: map_idI)
qed

lemma set_trim: "set (trim s) \<subseteq> set s"
  unfolding trim_def
  by (metis set_dropWhileD set_rev subsetI)

lemma set_removeTrailingSlash: "set (removeTrailingSlash s) \<subseteq> set s"
  by (auto simp: removeTrailingSlash_def dest: in_set_butlastD)

lemma set_removeProtocol: "set (removeProtocol s) \<subseteq> set s"
  by (auto simp: removeProtocol_def dest: in_set_dropD)

lemma length_trim: "length (trim s) \<le> length s"
  unfolding trim_def
  by (metis length_dropWhile_le length_rev order_trans)

lemma length_removeTrailingSlash:
  "length (removeTrailingSlash s) \<le> length s"
  "length (removeTrailingSlash s) = length s \<Longrightarrow> removeTrailingSlash s = s"
  by (cases s; auto simp: removeTrailingSlash_def split: if_splits)+

lemma length_removeProtocol:
  "length (removeProtocol s) \<le> length s"
  "length (removeProtocol s) = length s \<Longrightarrow> removeProtocol s = s"
  by (auto simp: removeProtocol_def split: if_splits)

lemma trim_idem: "trim (trim s) = trim s"
proof -
  define a where "a = dropWhile isWhiteSpace s"
  define b where "b = rev (dropWhile isWhiteSpace (rev a))"
  have rb: "rev b = dropWhile isWhiteSpace (rev a)"
    by (simp add: b_def)
  have rear: "dropWhile isWhiteSpace (rev b) = rev b"
    unfolding rb by (rule dropWhile_idem)
  have parts: "a = b @ rev (takeWhile isWhiteSpace (rev a))"
    unfolding b_def by (metis rev_append rev_rev_ident takeWhile_dropWhile_id)
  have front: "dropWhile isWhiteSpace b = b"
  proof (cases b)
    case Nil
    then show ?thesis by simp
  next
    case (Cons c cs)
    with parts have "hd a = c" and "a \<noteq> []"
      by (metis append_Cons list.sel(1), metis Nil_is_append_conv list.distinct(1))
    then have "\<not> isWhiteSpace c"
      unfolding a_def using hd_dropWhile [of isWhiteSpace s] by auto
    with Cons show ?thesis by simp
  qed
  have "trim s = b"
    by (simp add: trim_def a_def b_def)
  moreover have "trim b = b"
    by (simp add: trim_def front rear)
  ultimately show ?thesis by simp
qed

lemma normalizeDomain_again:
  "normalizeDomain (normalizeDomain x)
     = trim (removeTrailingSlash (removeProtocol (normalizeDomain x)))"
proof -
  have "set (normalizeDomain x) \<subseteq> set (toLowerCase x)"
    unfolding normalizeDomain_def
    using set_trim set_removeTrailingSlash set_removeProtocol by (meson order_trans)
  then have "toLowerCase (normalizeDomain x) = normalizeDomain x"
    by (rule toLowerCase_fixed)
  then show ?thesis
    by (simp add: normalizeDomain_def)
qed

lemma normalizeDomain_idempotent_iff:
  "normalizeDomain (normalizeDomain x) = normalizeDomain x
     \<longleftrightarrow> removeProtocol (normalizeDomain x) = normalizeDomain x
         \<and> removeTrailingSlash (normalizeDomain x) = normalizeDomain x"
proof
  define y where "y = normalizeDomain x"
  have ty: "trim y = y"
    unfolding y_def normalizeDomain_def by (rule trim_idem)
  {
    assume "removeProtocol y = y \<and> removeTrailingSlash y = y"
    then have "normalizeDomain y = y"
      unfolding y_def normalizeDomain_again using ty by (simp add: y_def)
  }
  then show "removeProtocol (normalizeDomain x) = normalizeDomain x
         \<and> removeTrailingSlash (normalizeDomain x) = normalizeDomain x
     \<Longrightarrow> normalizeDomain (normalizeDomain x) = normalizeDomain x"
    by (simp add: y_def)
  assume "normalizeDomain (normalizeDomain x) = normalizeDomain x"
  then have eq: "trim (removeTrailingSlash (removeProtocol y)) = y"
    by (simp add: normalizeDomain_again y_def)
  have "length y \<le> length (removeTrailingSlash (removeProtocol y))"
    using length_trim [of "removeTrailingSlash (removeProtocol y)"] eq by simp
  moreover have "length (removeTrailingSlash (removeProtocol y)) \<le> length (removeProtocol y)"
    by (rule length_removeTrailingSlash)
  moreover have "length (removeProtocol y) \<le> length y"
    by (rule length_removeProtocol)
  ultimately have l1: "length (removeProtocol y) = length y"
    and l2: "length (removeTrailingSlash (removeProtocol y)) = length (removeProtocol y)"
    by linarith+
  from l1 have p: "removeProtocol y = y" by (rule length_removeProtocol)
  from l2 have "removeTrailingSlash (removeProtocol y) = removeProtocol y"
    by (rule length_removeTrailingSlash)
  with p show "removeProtocol (normalizeDomain x) = normalizeDomain x
         \<and> removeTrailingSlash (normalizeDomain x) = normalizeDomain x"
    by (simp add: y_def)
qed

lemma removeProtocol_fixed:
  "removeProtocol d = d \<longleftrightarrow> take 8 d \<noteq> ''https://'' \<and> take 7 d \<noteq> ''http://''"
proof -
  have a: "take 8 d = ''https://'' \<Longrightarrow> drop 8 d \<noteq> d"
    by (metis append_take_drop_id append_self_conv2 list.distinct(1))
  have b: "take 7 d = ''http://'' \<Longrightarrow> drop 7 d \<noteq> d"
    by (metis append_take_drop_id append_self_conv2 list.distinct(1))
  show ?thesis
    using a b by (auto simp: removeProtocol_def)
qed

lemma removeTrailingSlash_fixed:
  "removeTrailingSlash d = d \<longleftrightarrow> d = [] \<or> last d \<noteq> CHR ''/''"
proof -
  have "d \<noteq> [] \<Longrightarrow> butlast d \<noteq> d"
    by (metis append_butlast_last_id append_self_conv list.distinct(1))
  then show ?thesis
    by (auto simp: removeTrailingSlash_def)
qed

lemma take_append_slash:
  assumes "take n (d @ ''/'') = w" and "take n d \<noteq> w" and "d = [] \<or> last d \<noteq> CHR ''/''"
    and "w \<noteq> []" and "last (butlast w) = CHR ''/''" and "butlast w \<noteq> []"
  shows False
proof (cases "n \<le> length d")
  case True
  with assms(1,2) show False by simp
next
  case False
  then have "take n (d @ ''/'') = d @ ''/''" by simp
  with assms(1) have "d @ ''/'' = w" by simp
  then have "d = butlast w" by (metis butlast_snoc)
  with assms(3,5,6) show False by simp
qed

lemma removeProtocol_append_slash:
  assumes "removeProtocol d = d" and "removeTrailingSlash d = d"
  shows "removeProtocol (d @ ''/'') = d @ ''/''"
proof -
  from assms(1) have p: "take 8 d \<noteq> ''https://''" "take 7 d \<noteq> ''http://''"
    by (simp_all add: removeProtocol_fixed)
  from assms(2) have s: "d = [] \<or> last d \<noteq> CHR ''/''"
    by (simp add: removeTrailingSlash_fixed)
  have "take 8 (d @ ''/'') \<noteq> ''https://''"
    using take_append_slash [of 8 d "''https://''"] p s by auto
  moreover have "take 7 (d @ ''/'') \<noteq> ''http://''"
    using take_append_slash [of 7 d "''http://''"] p s by auto
  ultimately show ?thesis
    by (simp add: removeProtocol_fixed)
qed

lemma normalizeDomain_variants:
  assumes low: "toLowerCase d = d" and rp: "removeProtocol d = d"
    and rts: "removeTrailingSlash d = d" and tr: "trim d = d"
    and p: "p \<in> {[], ''http://'', ''https://''}" and q: "q \<in> {[], ''/''}"
    and y: "toLowerCase y = p @ d @ q"
  shows "normalizeDomain y = d"
proof -
  have strip: "removeProtocol (p @ d @ q) = d @ q"
  proof -
    have none: "removeProtocol (d @ q) = d @ q"
      using q rp rts by (auto simp: removeProtocol_append_slash)
    have http: "removeProtocol (''http://'' @ d @ q) = d @ q"
      by (simp add: removeProtocol_def)
    have https: "removeProtocol (''https://'' @ d @ q) = d @ q"
      by (simp add: removeProtocol_def)
    from p none http https show ?thesis by auto
  qed
  have slash: "removeTrailingSlash (d @ q) = d"
    using q rts by (auto simp: removeTrailingSlash_def)
  show ?thesis
    by (simp add: normalizeDomain_def y strip slash tr)
qed

text \<open>
  Claim C7, as amended. \<open>normalizeDomain\<close> is a single pass: lower-case, remove one
  leading \<open>http://\<close> or \<open>https://\<close>, remove one trailing slash, trim. Applying it to
  its own result changes nothing exactly when that result no longer begins with
  a scheme prefix nor ends with a slash. For a canonical form \<open>d\<close> (lower-case,
  trimmed, without scheme prefix or trailing slash), every input that is \<open>d\<close> up to
  letter case, with or without one scheme prefix and with or without one trailing
  slash, normalizes to \<open>d\<close>; so \<open>"HTTPS://Acme.com/"\<close> and \<open>"acme.com"\<close> both give
  \<open>"acme.com"\<close>.
\<close>

theorem normalizeDomain_single_pass:
  "(normalizeDomain (normalizeDomain x) = normalizeDomain x
      \<longleftrightarrow> removeProtocol (normalizeDomain x) = normalizeDomain x
          \<and> removeTrailingSlash (normalizeDomain x) = normalizeDomain x)
   \<and> (toLowerCase d = d \<and> removeProtocol d = d \<and> removeTrailingSlash d = d \<and> trim d = d
        \<and> p \<in> {[], ''http://'', ''https://''} \<and> q \<in> {[], ''/''} \<and> toLowerCase y = p @ d @ q
       \<longrightarrow> normalizeDomain y = d)
   \<and> normalizeDomain ''HTTPS://Acme.com/'' = ''acme.com''
   \<and> normalizeDomain ''acme.com'' = ''acme.com''"
proof -
  have ex: "normalizeDomain ''HTTPS://Acme.com/'' = ''acme.com''"
    "normalizeDomain ''acme.com'' = ''acme.com''"
    by (simp_all add: normalizeDomain_defs)
  from normalizeDomain_idempotent_iff [of x] normalizeDomain_variants [of d p q y] ex
  show ?thesis by blast
qed

text \<open>
  The claim as stated fails: with a doubled slash or a doubled scheme prefix the
  second application changes the result of the first.
\<close>

theorem normalizeDomain_not_idempotent:
  "normalizeDomain ''acme.com//'' = ''acme.com/''
   \<and> normalizeDomain (normalizeDomain ''acme.com//'') = ''acme.com''
   \<and> normalizeDomain ''http://https://acme.com'' = ''https://acme.com''
   \<and> normalizeDomain (normalizeDomain ''http://https://acme.com'') = ''acme.com''"
  by (simp add: normalizeDomain_defs)

theorem normalizeDomain_single_pass_witness:
  "toLowerCase ''acme.com'' = ''acme.com'' \<and> removeProtocol ''acme.com'' = ''acme.com''
   \<and> removeTrailingSlash ''acme.com'' = ''acme.com'' \<and> trim ''acme.com'' = ''acme.com''
   \<and> toLowerCase ''HTTPS://Acme.com/'' = ''https://'' @ ''acme.com'' @ ''/''
   \<and> normalizeDomain ''HTTPS://Acme.com/'' = ''acme.com''
   \<and> normalizeDomain (normalizeDomain ''HTTPS://Acme.com/'') = normalizeDomain ''HTTPS://Acme.com/''"
proof -
  have h: "toLowerCase ''acme.com'' = ''acme.com''" "removeProtocol ''acme.com'' = ''acme.com''"
    "removeTrailingSlash ''acme.com'' = ''acme.com''" "trim ''acme.com'' = ''acme.com''"
    "toLowerCase ''HTTPS://Acme.com/'' = ''https://'' @ ''acme.com'' @ ''/''"
    by (simp_all add: normalizeDomain_defs)
  from normalizeDomain_single_pass [of "''HTTPS://Acme.com/''" "''acme.com''" "''https://''" "''/''"
      "''HTTPS://Acme.com/''"] h
  show ?thesis by simp
qed


text \<open>An input with surrounding white space: the anchored replacements run before \<open>trim\<close>.\<close>

lemma normalizeDomain_padded:
  "normalizeDomain '' acme.com/ '' = ''acme.com/''
   \<and> normalizeDomain '' https://acme.com'' = ''https://acme.com''"
  by (simp add: normalizeDomain_defs)

section \<open>Lookup errors during tenant resolution\<close>

lemma resolveProjectId_domain_fails:
  "\<not> truthy (header_x_project_id req)
     \<Longrightarrow> resolveProjectId DomainLookupFails s req = header_x_project_id req"
  by (simp add: resolveProjectId_def getProjectIdByDomain_def truthy_def Let_def
      split: option.splits)

text \<open>
  Claim C8, as amended. An error of the domain lookup is caught inside
  \<open>getProjectIdByDomain\<close>, which returns \<open>null\<close> as it does when no project has the
  domain: on a request without a project header the middleware then calls
  \<open>next()\<close> with no error and leaves the request without tenant context. An error
  of the later lookup of the project by id is the one that reaches the request,
  through \<open>next(error)\<close>.
\<close>

theorem lookup_errors_swallowed_or_surfaced:
  assumes "\<not> truthy (header_x_project_id req)"
  shows "getProjectIdByDomain DomainLookupFails s domain = None
       \<and> tenantMiddleware decrypt DomainLookupFails s reg req = (None, req, reg)
       \<and> (\<forall>req'. truthy (resolveProjectId ProjectLookupFails s req') \<longrightarrow>
             tenantMiddleware decrypt ProjectLookupFails s reg req'
               = (Some DirectoryUnavailable, req', reg))"
proof -
  have a: "getProjectIdByDomain DomainLookupFails s domain = None"
    by (simp add: getProjectIdByDomain_def)
  have b: "tenantMiddleware decrypt DomainLookupFails s reg req = (None, req, reg)"
    using assms
    by (simp add: tenantMiddleware_def resolveProjectId_domain_fails truthy_def
        split: option.splits)
  have c: "\<forall>req'. truthy (resolveProjectId ProjectLookupFails s req') \<longrightarrow>
             tenantMiddleware decrypt ProjectLookupFails s reg req'
               = (Some DirectoryUnavailable, req', reg)"
    by (auto simp: tenantMiddleware_def truthy_def split: option.splits)
  from a b c show ?thesis by blast
qed

text \<open>
  The claim as stated fails: a request for \<open>bolt.io\<close> resolves to project \<open>p2\<close> when
  the directory answers, and passes through without tenant and without error
  when the domain lookup fails.
\<close>

theorem domain_lookup_error_passes_through:
  "fst (tenantMiddleware exampleDecrypt DomainLookupFails exampleStore emptyRegistry boltRequest) = None
   \<and> fst (snd (tenantMiddleware exampleDecrypt DomainLookupFails exampleStore emptyRegistry boltRequest))
       = boltRequest
   \<and> req_tenant boltRequest = None
   \<and> fst (tenantMiddleware exampleDecrypt NoLookupFault exampleStore emptyRegistry boltRequest) = None
   \<and> map_option t_id (req_tenant (fst (snd
        (tenantMiddleware exampleDecrypt NoLookupFault exampleStore emptyRegistry boltRequest))))
       = Some ''p2''"
  by code_simp

theorem lookup_errors_swallowed_or_surfaced_witness:
  "\<not> truthy (header_x_project_id boltRequest)
   \<and> tenantMiddleware exampleDecrypt DomainLookupFails exampleStore emptyRegistry boltRequest
       = (None, boltRequest, emptyRegistry)
   \<and> truthy (resolveProjectId ProjectLookupFails exampleStore boltRequest)
   \<and> tenantMiddleware exampleDecrypt ProjectLookupFails exampleStore emptyRegistry boltRequest
       = (Some DirectoryUnavailable, boltRequest, emptyRegistry)"
proof -
  have h: "\<not> truthy (header_x_project_id boltRequest)"
    by (simp add: truthy_def boltRequest_def)
  have t: "truthy (resolveProjectId ProjectLookupFails exampleStore boltRequest)"
    by code_simp
  from lookup_errors_swallowed_or_surfaced [OF h, of exampleStore "''bolt.io''" exampleDecrypt emptyRegistry]
    h t show ?thesis by blast
qed

section \<open>The store invariant is kept by every billing operation\<close>

text \<open>
  The hypotheses of the theorems above (distinct invoice ids, invoices of
  existing projects, no \<open>paidAt\<close> on an unpaid invoice) hold of the example store
  and are kept by invoicing, settlement, the sweep and the monthly run.
\<close>

lemmas storeInvariant_defs = storeInvariant_def invoiceIdsDistinct_def invoiceProjectsExist_def
  unpaidUnstamped_def

lemma map_key_update:
  assumes "\<And>x. key (f x) = key x"
  shows "map key (map (\<lambda>x. if P x then f x else x) xs) = map key xs"
  using assms by (induction xs) auto

lemma storeInvariant_generateMonthlyInvoice:
  assumes "storeInvariant s"
  shows "storeInvariant (snd (generateMonthlyInvoice e projectId s))"
proof -
  obtain r s' where g: "generateMonthlyInvoice e projectId s = (r, s')"
    by (cases "generateMonthlyInvoice e projectId s")
  from generateMonthlyInvoice_cases [OF g]
  consider "s' = s"
    | c subscription where "calculateBilling e projectId s = Inr c"
        "newId e \<notin> set (map inv_id (invoices s))"
        "projects s' = projects s"
        "invoices s' = invoices s @ [invoiceData e projectId subscription c]"
    by (auto simp: billed_def)
  then show ?thesis
  proof cases
    case 1
    with assms g show ?thesis by simp
  next
    case 2
    have "projectId \<in> set (map proj_id (projects s))"
      using 2(1) by (rule calculateBilling_project_exists)
    moreover have "inv_projectId (invoiceData e projectId subscription c) = projectId"
      "inv_id (invoiceData e projectId subscription c) = newId e"
      "inv_status (invoiceData e projectId subscription c) = PENDING"
      "paidAt (invoiceData e projectId subscription c) = None"
      by (simp_all add: invoiceData_def)
    ultimately show ?thesis
      using assms 2(2,3,4) unfolding g storeInvariant_defs by auto
  qed
qed

lemma storeInvariant_processPayment:
  assumes "storeInvariant s"
  shows "storeInvariant (snd (processPayment t invoiceId m s))"
proof (cases "findInvoice invoiceId s")
  case None
  with assms show ?thesis by (simp add: processPayment_def)
next
  case (Some invoice)
  show ?thesis
  proof (cases "inv_status invoice = PAID")
    case True
    with assms show ?thesis by (simp add: processPayment_paid [OF Some])
  next
    case False
    let ?f = "\<lambda>i. if inv_id i = invoiceId then i\<lparr>inv_status := PAID, paidAt := Some t\<rparr> else i"
    let ?g = "\<lambda>p. if proj_id p = inv_projectId invoice then p\<lparr>proj_isActive := True\<rparr> else p"
    have ids: "map inv_id (map ?f (invoices s)) = map inv_id (invoices s)"
      by (rule map_key_update) simp
    have pids: "map inv_projectId (map ?f (invoices s)) = map inv_projectId (invoices s)"
      by (rule map_key_update) simp
    have prs: "map proj_id (map ?g (projects s)) = map proj_id (projects s)"
      by (rule map_key_update) simp
    have stamp: "\<forall>i \<in> set (map ?f (invoices s)). inv_status i \<noteq> PAID \<longrightarrow> paidAt i = None"
      using assms unfolding storeInvariant_defs by auto
    show ?thesis
      using assms ids pids prs stamp
      unfolding processPayment_unpaid [OF Some False] storeInvariant_defs
      by (simp del: set_map map_map)
  qed
qed

lemma storeInvariant_checkOverdueInvoices:
  assumes "storeInvariant s"
  shows "storeInvariant (snd (checkOverdueInvoices t s))"
proof -
  let ?f = "\<lambda>i. if inv_status i = PENDING \<and> dueDate i < t then i\<lparr>inv_status := OVERDUE\<rparr> else i"
  let ?g = "\<lambda>p. if \<exists>i \<in> set (invoices s).
                       inv_status i = PENDING \<and> dueDate i < t \<and> inv_projectId i = proj_id p
                  then p\<lparr>proj_isActive := False\<rparr> else p"
  from assms have pk: "invoiceIdsDistinct s" and fk: "invoiceProjectsExist s"
    by (simp_all add: storeInvariant_def)
  have ids: "map inv_id (map ?f (invoices s)) = map inv_id (invoices s)"
    by (rule map_key_update) simp
  have pids: "map inv_projectId (map ?f (invoices s)) = map inv_projectId (invoices s)"
    by (rule map_key_update) simp
  have prs: "map proj_id (map ?g (projects s)) = map proj_id (projects s)"
    by (rule map_key_update) simp
  have stamp: "\<forall>i \<in> set (map ?f (invoices s)). inv_status i \<noteq> PAID \<longrightarrow> paidAt i = None"
    using assms unfolding storeInvariant_defs by auto
  show ?thesis
    using assms ids pids prs stamp
    unfolding checkOverdueInvoices_result [OF pk fk] storeInvariant_defs
    by (simp del: set_map map_map)
qed

lemma storeInvariant_billingLoop:
  assumes "storeInvariant s"
  shows "storeInvariant (snd (snd (billingLoop envs i subs p e s)))"
  using assms
proof (induction subs arbitrary: i p e s)
  case Nil
  then show ?case by simp
next
  case (Cons sub subs)
  obtain r s1 where g: "generateMonthlyInvoice (envs i) (sub_projectId sub) s = (r, s1)"
    by (cases "generateMonthlyInvoice (envs i) (sub_projectId sub) s")
  have "storeInvariant s1"
    using storeInvariant_generateMonthlyInvoice [OF Cons.prems, of "envs i" "sub_projectId sub"] g
    by simp
  then show ?case
    using Cons.IH g by (cases r) simp_all
qed

lemma storeInvariant_processMonthlyBilling:
  assumes "storeInvariant s"
  shows "storeInvariant (snd (processMonthlyBilling envs t s))"
proof -
  obtain p e s1 where loop:
    "billingLoop envs 0 (filter sub_isActive (subscriptions s)) 0 0 s = (p, e, s1)"
    by (cases "billingLoop envs 0 (filter sub_isActive (subscriptions s)) 0 0 s") auto
  have "storeInvariant s1"
    using storeInvariant_billingLoop [OF assms, of envs 0 "filter sub_isActive (subscriptions s)" 0 0] loop
    by simp
  then have "storeInvariant (snd (checkOverdueInvoices t s1))"
    by (rule storeInvariant_checkOverdueInvoices)
  then show ?thesis
    by (auto simp: processMonthlyBilling_def loop split: prod.splits sum.splits)
qed

lemma storeInvariant_exampleStore: "storeInvariant exampleStore"
  by (simp add: storeInvariant_defs exampleStore_defs)

section \<open>The client registry shares one handle per connection string\<close>

lemma getTenantClient_cached:
  "tenantClients r k = Some h \<Longrightarrow> getTenantClient k r = (h, r)"
  by (simp add: getTenantClient_def)

lemma getTenantClient_stores:
  "tenantClients (snd (getTenantClient k r)) k = Some (fst (getTenantClient k r))"
  by (simp add: getTenantClient_def Let_def split: option.splits)

lemma getTenantClient_other:
  "tenantClients r k = Some h \<Longrightarrow> tenantClients (snd (getTenantClient k' r)) k = Some h"
  by (auto simp: getTenantClient_def Let_def split: option.splits)

lemma disconnectTenantClient_other:
  "k' \<noteq> k \<Longrightarrow> tenantClients (snd (disconnectTenantClient k' ok r)) k = tenantClients r k"
  by (simp add: disconnectTenantClient_def split: option.splits)

lemma runRegistry_keeps:
  "\<forall>ok. Evict k ok \<notin> set ops \<Longrightarrow> tenantClients r k = Some h
     \<Longrightarrow> tenantClients (snd (runRegistry ops r)) k = Some h"
proof (induction ops arbitrary: r)
  case Nil
  then show ?case by simp
next
  case (Cons op ops)
  show ?case
  proof (cases op)
    case (GetClient k')
    have "tenantClients (snd (getTenantClient k' r)) k = Some h"
      using Cons.prems(2) by (rule getTenantClient_other)
    with Cons.IH [of "snd (getTenantClient k' r)"] Cons.prems(1) GetClient show ?thesis
      by (simp add: split_beta Let_def)
  next
    case (Evict k' ok)
    with Cons.prems(1) have "k' \<noteq> k" by auto
    then have "tenantClients (snd (disconnectTenantClient k' ok r)) k = Some h"
      using Cons.prems(2) by (simp add: disconnectTenantClient_other)
    with Cons.IH [of "snd (disconnectTenantClient k' ok r)"] Cons.prems(1) Evict show ?thesis
      by simp
  qed
qed

lemma registry_inv_getTenantClient:
  "registry_inv r \<Longrightarrow> registry_inv (snd (getTenantClient k r))"
  unfolding registry_inv_def getTenantClient_def
  by (auto simp: Let_def split: option.splits if_splits) (metis less_SucI less_irrefl)+

lemma registry_inv_disconnectTenantClient:
  "registry_inv r \<Longrightarrow> registry_inv (snd (disconnectTenantClient k ok r))"
  unfolding registry_inv_def disconnectTenantClient_def
  by (auto split: option.splits if_splits)

lemma registry_inv_runRegistry:
  "registry_inv r \<Longrightarrow> registry_inv (snd (runRegistry ops r))"
proof (induction ops arbitrary: r)
  case Nil
  then show ?case by simp
next
  case (Cons op ops)
  then show ?case
    by (cases op)
       (simp_all add: split_beta Let_def registry_inv_getTenantClient
          registry_inv_disconnectTenantClient)
qed


text \<open>
  Claim C9. The registry holds at most one client per connection string. Two
  \<open>getTenantClient\<close> calls with the same connection string, with any calls in between
  that do not disconnect that string, return the same object and the second builds
  nothing; a cached client is returned as it is; a client is built (with a
  reference no cached client has) only when none is cached under that exact key;
  after \<open>disconnectTenantClient\<close> the key is gone and the next call builds a client
  that is none of the earlier ones.
\<close>

theorem registry_one_handle_per_identity:
  assumes inv: "registry_inv r" and noevict: "\<forall>ok. Evict k ok \<notin> set mid"
  shows "(let (h1, r1) = getTenantClient k r;
              r2 = snd (runRegistry mid r1);
              (h2, r3) = getTenantClient k r2
          in h2 = h1 \<and> r3 = r2)
       \<and> (\<forall>h. tenantClients r k = Some h \<longrightarrow> getTenantClient k r = (h, r))
       \<and> (tenantClients r k = None \<longrightarrow>
            fst (getTenantClient k r) = \<lparr>h_ref = nextRef r, h_url = k\<rparr>
            \<and> nextRef (snd (getTenantClient k r)) = Suc (nextRef r)
            \<and> (\<forall>k' h'. tenantClients r k' = Some h' \<longrightarrow> h_ref h' \<noteq> nextRef r))
       \<and> (let r1 = snd (disconnectTenantClient k True r)
          in tenantClients r1 k = None
             \<and> h_ref (fst (getTenantClient k r1)) = nextRef r
             \<and> (\<forall>k' h'. tenantClients r k' = Some h'
                   \<longrightarrow> h_ref (fst (getTenantClient k r1)) \<noteq> h_ref h'))
       \<and> registry_inv (snd (runRegistry mid (snd (getTenantClient k r))))"
proof -
  obtain h1 r1 where g1: "getTenantClient k r = (h1, r1)"
    by (cases "getTenantClient k r")
  have "tenantClients r1 k = Some h1"
    using getTenantClient_stores [of k r] g1 by simp
  then have "tenantClients (snd (runRegistry mid r1)) k = Some h1"
    using noevict by (simp add: runRegistry_keeps)
  then have "getTenantClient k (snd (runRegistry mid r1)) = (h1, snd (runRegistry mid r1))"
    by (rule getTenantClient_cached)
  then have sharing:
    "(let (h1, r1) = getTenantClient k r;
          r2 = snd (runRegistry mid r1);
          (h2, r3) = getTenantClient k r2
      in h2 = h1 \<and> r3 = r2)"
    using g1 by (simp add: Let_def)
  have fresh: "\<forall>k' h'. tenantClients r k' = Some h' \<longrightarrow> h_ref h' \<noteq> nextRef r"
    using inv unfolding registry_inv_def by (metis less_irrefl)
  have cached: "\<forall>h. tenantClients r k = Some h \<longrightarrow> getTenantClient k r = (h, r)"
    by (simp add: getTenantClient_cached)
  have built: "tenantClients r k = None \<longrightarrow>
            fst (getTenantClient k r) = \<lparr>h_ref = nextRef r, h_url = k\<rparr>
            \<and> nextRef (snd (getTenantClient k r)) = Suc (nextRef r)
            \<and> (\<forall>k' h'. tenantClients r k' = Some h' \<longrightarrow> h_ref h' \<noteq> nextRef r)"
    using fresh by (simp add: getTenantClient_def Let_def)
  have evicted: "tenantClients (snd (disconnectTenantClient k True r)) k = None"
    by (simp add: disconnectTenantClient_def split: option.splits)
  have "nextRef (snd (disconnectTenantClient k True r)) = nextRef r"
    by (simp add: disconnectTenantClient_def split: option.splits)
  with evicted have rebuilt:
    "h_ref (fst (getTenantClient k (snd (disconnectTenantClient k True r)))) = nextRef r"
    by (simp add: getTenantClient_def Let_def)
  have evict: "(let r1 = snd (disconnectTenantClient k True r)
          in tenantClients r1 k = None
             \<and> h_ref (fst (getTenantClient k r1)) = nextRef r
             \<and> (\<forall>k' h'. tenantClients r k' = Some h'
                   \<longrightarrow> h_ref (fst (getTenantClient k r1)) \<noteq> h_ref h'))"
    unfolding Let_def using evicted rebuilt fresh by (metis)
  have "registry_inv (snd (runRegistry mid (snd (getTenantClient k r))))"
    using inv by (simp add: registry_inv_getTenantClient registry_inv_runRegistry)
  with sharing cached built evict show ?thesis by blast
qed

theorem registry_one_handle_per_identity_witness:
  "registry_inv emptyRegistry
   \<and> (\<forall>ok. Evict ''postgres://a'' ok \<notin> set [GetClient ''postgres://b'', Evict ''postgres://b'' True, GetClient ''postgres://a''])
   \<and> fst (runRegistry [GetClient ''postgres://a'', GetClient ''postgres://b'', Evict ''postgres://b'' True,
                       GetClient ''postgres://a'', GetClient ''postgres://a''] emptyRegistry)
      = [\<lparr>h_ref = 0, h_url = ''postgres://a''\<rparr>, \<lparr>h_ref = 1, h_url = ''postgres://b''\<rparr>,
         \<lparr>h_ref = 0, h_url = ''postgres://a''\<rparr>, \<lparr>h_ref = 0, h_url = ''postgres://a''\<rparr>]
   \<and> h_ref (fst (getTenantClient ''postgres://a''
        (snd (disconnectTenantClient ''postgres://a'' True (snd (getTenantClient ''postgres://a'' emptyRegistry)))))) = 1"
proof -
  have h1: "registry_inv emptyRegistry"
    by (simp add: registry_inv_def emptyRegistry_def)
  have h2: "\<forall>ok. Evict ''postgres://a'' ok \<notin> set [GetClient ''postgres://b'', Evict ''postgres://b'' True, GetClient ''postgres://a'']"
    by simp
  note registry_one_handle_per_identity [OF h1 h2]
  then show ?thesis using h1 h2
    by (simp add: emptyRegistry_def getTenantClient_def disconnectTenantClient_def Let_def)
qed

end
